theory Spec2Isabelle
  imports Main "HOL-Library.Char_ord" "HOL-Library.List_Lexorder" "HOL-Library.AList"
    "HOL-Library.Word"
begin

unbundle bit_operations_syntax

section \<open>Values, exceptions and text helpers\<close>

text \<open>
  The wrapper in \<^verbatim>\<open>src/dls_normsql/aiosqlite.py\<close> is a Python class whose methods
  mutate the object, the file system and the embedded engine, and which signal failure by
  raising.  Every method is modelled as a function from the state before the call to a
  pair of outcome and state after the call; the outcome is \<open>Inl e\<close> when the method
  raises \<open>e\<close> and \<open>Inr v\<close> when it returns \<open>v\<close>.  Logging calls have no effect on
  any of that and are left out.
\<close>

datatype sqlvalue = Null | IntV int | TextV string

datatype exn =
    RuntimeError string
  | OperationalError string
  | ProgrammingError string
  | NotFound string
  | AttributeError
  | IndexError
  | TypeError
  | FileNotFoundError string
  | FileExistsError string
  | NotADirectoryError string
  | IsADirectoryError string
  | SameFileError string

text \<open>Python's \<^verbatim>\<open>", ".join(xs)\<close>.\<close>

fun join_comma :: "string list \<Rightarrow> string" where
  "join_comma [] = []"
| "join_comma [x] = x"
| "join_comma (x # y # ys) = x @ '', '' @ join_comma (y # ys)"

text \<open>Python's \<^verbatim>\<open>str(n)\<close> for an integer, as an f-string renders it.\<close>

fun str_nat :: "nat \<Rightarrow> string" where
  "str_nat n =
     (if n < 10 then [''0123456789'' ! n]
      else str_nat (n div 10) @ [''0123456789'' ! (n mod 10)])"

declare str_nat.simps [simp del]

definition str_int :: "int \<Rightarrow> string" where
  "str_int i = (if i < 0 then CHR ''-'' # str_nat (nat (- i)) else str_nat (nat i))"

text \<open>
  Python's \<^verbatim>\<open>range(n)\<close> and \<^verbatim>\<open>range(a, b)\<close> over integers, as the lists a
  \<^verbatim>\<open>for\<close> loop runs through.
\<close>

definition py_range :: "int \<Rightarrow> int list" where
  "py_range n = map int [0..<nat n]"

definition py_range2 :: "int \<Rightarrow> int \<Rightarrow> int list" where
  "py_range2 a b = [a..b - 1]"

text \<open>
  Python list indexing \<^verbatim>\<open>xs[i]\<close>: a negative index counts from the end, and an index
  outside \<open>-len \<dots> len-1\<close> raises IndexError.
\<close>

definition py_index :: "'a list \<Rightarrow> int \<Rightarrow> exn + 'a" where
  "py_index xs i =
     (if i < - int (length xs) \<or> int (length xs) \<le> i then Inl IndexError
      else if i < 0 then Inr (xs ! nat (int (length xs) + i))
      else Inr (xs ! nat i))"

section \<open>Paths\<close>

text \<open>
  \<^verbatim>\<open>os.path.split\<close> (POSIX): the path is cut after its last slash; trailing slashes are
  stripped from the head unless the head consists of slashes only.
\<close>

definition rstrip_slash :: "string \<Rightarrow> string" where
  "rstrip_slash p = rev (dropWhile (\<lambda>c. c = CHR ''/'') (rev p))"

definition path_split :: "string \<Rightarrow> string \<times> string" where
  "path_split p =
     (let head = rev (dropWhile (\<lambda>c. c \<noteq> CHR ''/'') (rev p));
          tail = rev (takeWhile (\<lambda>c. c \<noteq> CHR ''/'') (rev p))
      in (if head \<noteq> [] \<and> head \<noteq> replicate (length head) (CHR ''/'')
          then rstrip_slash head else head, tail))"

definition dirname :: "string \<Rightarrow> string" where
  "dirname p = fst (path_split p)"

definition basename :: "string \<Rightarrow> string" where
  "basename p = rev (takeWhile (\<lambda>c. c \<noteq> CHR ''/'') (rev p))"

text \<open>
  \<^verbatim>\<open>os.path.splitext\<close>: the extension starts at the last dot of the last path component,
  unless only dots precede that dot in the component.
\<close>

definition splitext :: "string \<Rightarrow> string \<times> string" where
  "splitext p =
     (let comp = basename p;
          ext = rev (takeWhile (\<lambda>c. c \<noteq> CHR ''.'') (rev comp))
      in if CHR ''.'' \<notin> set comp then (p, [])
         else if \<exists>c \<in> set (take (length comp - length ext - 1) comp). c \<noteq> CHR ''.''
         then (take (length p - length ext - 1) p, drop (length p - length ext - 1) p)
         else (p, []))"

section \<open>The embedded engine\<close>

text \<open>
  The relational engine is an external collaborator.  It is modelled as far as the wrapper
  drives it: a database is a list of tables, a table has a name, columns, index names and
  rows (one value per column).  The statements are the ones the wrapper formats; each is
  given by its parts, and a rendering function gives the SQL text the wrapper builds, which
  appears in error messages.  A column declared by \<open>create_table\<close> has no DEFAULT clause
  of its own here, so a column left out of an INSERT is NULL.  The engine raises
  OperationalError for a statement it cannot prepare (an unknown table or column, an
  object that already exists, an empty column list), and the Python binding raises
  ProgrammingError when the number of bound values is not the number of placeholders.
\<close>

record sqltable =
  columns :: "string list"
  indices :: "string list"
  rows :: "sqlvalue list list"

type_synonym database = "(string \<times> sqltable) list"

text \<open>A WHERE clause: the text \<^verbatim>\<open>1 = 1\<close>, or \<^verbatim>\<open>col = ?\<close> with one placeholder.\<close>

datatype predicate = Tautology | ColumnEq string

fun where_sql :: "predicate \<Rightarrow> string" where
  "where_sql Tautology = ''1 = 1''"
| "where_sql (ColumnEq c) = c @ '' = ?''"

fun placeholders :: "predicate \<Rightarrow> nat" where
  "placeholders Tautology = 0"
| "placeholders (ColumnEq c) = 1"

fun where_columns :: "predicate \<Rightarrow> string list" where
  "where_columns Tautology = []"
| "where_columns (ColumnEq c) = [c]"

definition column_value :: "string list \<Rightarrow> sqlvalue list \<Rightarrow> string \<Rightarrow> sqlvalue" where
  "column_value cols r c = (case map_of (zip cols r) c of Some v \<Rightarrow> v | None \<Rightarrow> Null)"

text \<open>In SQL a comparison with NULL is never true.\<close>

fun holds :: "predicate \<Rightarrow> sqlvalue list \<Rightarrow> string list \<Rightarrow> sqlvalue list \<Rightarrow> bool" where
  "holds Tautology subs cols r = True"
| "holds (ColumnEq c) subs cols r =
     (case subs of v # _ \<Rightarrow> v \<noteq> Null \<and> column_value cols r c = v | [] \<Rightarrow> False)"

definition engine_drop_table_if_exists :: "database \<Rightarrow> string \<Rightarrow> database" where
  "engine_drop_table_if_exists db n = AList.delete n db"

definition engine_create_table :: "database \<Rightarrow> string \<Rightarrow> string list \<Rightarrow> exn + database" where
  "engine_create_table db n cols =
     (if cols = [] then Inl (OperationalError ''syntax error'')
      else if map_of db n \<noteq> None
      then Inl (OperationalError (''table '' @ n @ '' already exists''))
      else Inr (db @ [(n, \<lparr>columns = cols, indices = [], rows = []\<rparr>)]))"

definition engine_create_index ::
  "database \<Rightarrow> string \<Rightarrow> string \<Rightarrow> string \<Rightarrow> exn + database" where
  "engine_create_index db i n c =
     (case map_of db n of
        None \<Rightarrow> Inl (OperationalError (''no such table: main.'' @ n))
      | Some t \<Rightarrow>
          if c \<notin> set (columns t) then Inl (OperationalError (''no such column: '' @ c))
          else if i \<in> set (indices t)
          then Inl (OperationalError (''index '' @ i @ '' already exists''))
          else Inr (AList.update n (t\<lparr>indices := indices t @ [i]\<rparr>) db))"

text \<open>One row of an INSERT: the named columns get the bound values, the others NULL.\<close>

definition inserted_row :: "string list \<Rightarrow> string list \<Rightarrow> sqlvalue list \<Rightarrow> sqlvalue list" where
  "inserted_row cols flds vals = map (column_value flds vals) cols"

text \<open>
  \<^verbatim>\<open>executemany\<close> of an INSERT: the rows are inserted one after the other; a row whose
  number of values is not the number of placeholders stops the run with ProgrammingError,
  the rows before it staying inserted in the open transaction.
\<close>

fun engine_insert_rows ::
  "sqltable \<Rightarrow> string list \<Rightarrow> sqlvalue list list \<Rightarrow> exn option \<times> sqltable" where
  "engine_insert_rows t flds [] = (None, t)"
| "engine_insert_rows t flds (vals # rest) =
     (if length vals \<noteq> length flds
      then (Some (ProgrammingError ''Incorrect number of bindings supplied''), t)
      else engine_insert_rows
             (t\<lparr>rows := rows t @ [inserted_row (columns t) flds vals]\<rparr>) flds rest)"

definition engine_insert ::
  "database \<Rightarrow> string \<Rightarrow> string list \<Rightarrow> sqlvalue list list \<Rightarrow> exn option \<times> database" where
  "engine_insert db n flds values_rows =
     (if flds = [] then (Some (OperationalError ''syntax error''), db)
      else case map_of db n of
        None \<Rightarrow> (Some (OperationalError (''no such table: '' @ n)), db)
      | Some t \<Rightarrow>
          (case filter (\<lambda>f. f \<notin> set (columns t)) flds of
             f # _ \<Rightarrow>
               (Some (OperationalError (''table '' @ n @ '' has no column named '' @ f)), db)
           | [] \<Rightarrow>
               (let (e, t') = engine_insert_rows t flds values_rows
                in (e, AList.update n t' db))))"

text \<open>An UPDATE sets the named columns in the rows the WHERE clause selects.\<close>

definition updated_row ::
  "string list \<Rightarrow> string list \<Rightarrow> sqlvalue list \<Rightarrow> sqlvalue list \<Rightarrow> sqlvalue list" where
  "updated_row cols flds vals r =
     map (\<lambda>(c, old). case map_of (zip flds vals) c of Some v \<Rightarrow> v | None \<Rightarrow> old) (zip cols r)"

definition engine_update ::
  "database \<Rightarrow> string \<Rightarrow> string list \<Rightarrow> predicate \<Rightarrow> sqlvalue list \<Rightarrow> exn + (nat \<times> database)"
  where
  "engine_update db n flds wh values_row =
     (case map_of db n of
        None \<Rightarrow> Inl (OperationalError (''no such table: '' @ n))
      | Some t \<Rightarrow>
          (case filter (\<lambda>f. f \<notin> set (columns t)) (flds @ where_columns wh) of
             f # _ \<Rightarrow> Inl (OperationalError (''no such column: '' @ f))
           | [] \<Rightarrow>
               if length values_row \<noteq> length flds + placeholders wh
               then Inl (ProgrammingError ''Incorrect number of bindings supplied'')
               else
                 (let vals = take (length flds) values_row;
                      subs = drop (length flds) values_row;
                      hit = (\<lambda>r. holds wh subs (columns t) r);
                      t' = t\<lparr>rows := map (\<lambda>r. if hit r
                                then updated_row (columns t) flds vals r else r) (rows t)\<rparr>
                  in Inr (length (filter hit (rows t)), AList.update n t' db))))"

text \<open>A SELECT of named columns from one table, with an optional WHERE clause.\<close>

record select_statement =
  sel_columns :: "string list"
  sel_table :: string
  sel_where :: "predicate option"

definition select_sql :: "select_statement \<Rightarrow> string" where
  "select_sql q =
     ''SELECT '' @ join_comma (sel_columns q) @ '' FROM '' @ sel_table q @
     (case sel_where q of None \<Rightarrow> [] | Some w \<Rightarrow> '' WHERE '' @ where_sql w)"

text \<open>
  The result of executing a SELECT on a cursor: the column labels of
  \<^verbatim>\<open>cursor.description\<close> and the rows \<^verbatim>\<open>fetchall\<close> returns.
\<close>

definition engine_select ::
  "database \<Rightarrow> select_statement \<Rightarrow> sqlvalue list \<Rightarrow> exn + (string list \<times> sqlvalue list list)"
  where
  "engine_select db q subs =
     (if sel_columns q = [] then Inl (OperationalError ''syntax error'')
      else case map_of db (sel_table q) of
        None \<Rightarrow> Inl (OperationalError (''no such table: '' @ sel_table q))
      | Some t \<Rightarrow>
          (case filter (\<lambda>c. c \<notin> set (columns t))
                  (sel_columns q @ (case sel_where q of None \<Rightarrow> [] | Some w \<Rightarrow> where_columns w)) of
             c # _ \<Rightarrow> Inl (OperationalError (''no such column: '' @ c))
           | [] \<Rightarrow>
               if length subs \<noteq> (case sel_where q of None \<Rightarrow> 0 | Some w \<Rightarrow> placeholders w)
               then Inl (ProgrammingError ''Incorrect number of bindings supplied'')
               else Inr (sel_columns q,
                      map (\<lambda>r. map (column_value (columns t) r) (sel_columns q))
                        (filter (\<lambda>r. case sel_where q of None \<Rightarrow> True
                                     | Some w \<Rightarrow> holds w subs (columns t) r) (rows t)))))"

section \<open>The file system\<close>

text \<open>
  Files and directories are keyed by the path text the program uses (two different texts
  are two different entries; the empty path is the working directory when a file is opened
  and names nothing for \<^verbatim>\<open>os.path.exists\<close>).  A store file holds the committed
  database and its permission bits.
\<close>

record stored_file =
  content :: database
  mode :: "16 word"

record filesystem =
  files :: "(string \<times> stored_file) list"
  dirs :: "(string \<times> 16 word) list"
  umask :: "16 word"

definition isfile :: "filesystem \<Rightarrow> string \<Rightarrow> bool" where
  "isfile fsys p = (map_of (files fsys) p \<noteq> None)"

definition isdir :: "filesystem \<Rightarrow> string \<Rightarrow> bool" where
  "isdir fsys p = (p \<noteq> [] \<and> (p = ''/'' \<or> map_of (dirs fsys) p \<noteq> None))"

definition path_exists :: "filesystem \<Rightarrow> string \<Rightarrow> bool" where
  "path_exists fsys p = (isfile fsys p \<or> isdir fsys p)"

text \<open>Whether a file can be created at \<open>p\<close>: its directory part is empty or a directory.\<close>

definition parent_isdir :: "filesystem \<Rightarrow> string \<Rightarrow> bool" where
  "parent_isdir fsys p = (dirname p = [] \<or> isdir fsys (dirname p))"

definition parent_error :: "filesystem \<Rightarrow> string \<Rightarrow> exn" where
  "parent_error fsys p =
     (if isfile fsys (dirname p) then NotADirectoryError p else FileNotFoundError p)"

text \<open>\<^verbatim>\<open>os.makedirs\<close> looks at the path without a trailing slash.\<close>

definition makedirs_parts :: "string \<Rightarrow> string \<times> string" where
  "makedirs_parts p =
     (if snd (path_split p) = [] then path_split (fst (path_split p)) else path_split p)"

definition mkdir :: "filesystem \<Rightarrow> string \<Rightarrow> exn + filesystem" where
  "mkdir fsys p =
     (if p = [] then Inl (FileNotFoundError p)
      else if path_exists fsys p then Inl (FileExistsError p)
      else if fst (makedirs_parts p) \<noteq> [] \<and> isfile fsys (fst (makedirs_parts p))
      then Inl (NotADirectoryError p)
      else if fst (makedirs_parts p) \<noteq> [] \<and> \<not> isdir fsys (fst (makedirs_parts p))
      then Inl (FileNotFoundError p)
      else Inr (fsys\<lparr>dirs := dirs fsys @ [(p, 511 AND NOT (umask fsys))]\<rparr>))"

function makedirs :: "filesystem \<Rightarrow> string \<Rightarrow> exn + filesystem" where
  "makedirs fsys p =
     (if fst (makedirs_parts p) \<noteq> [] \<and> snd (makedirs_parts p) \<noteq> []
         \<and> \<not> path_exists fsys (fst (makedirs_parts p))
      then (case makedirs fsys (fst (makedirs_parts p)) of
              Inl (FileExistsError x) \<Rightarrow>
                if snd (makedirs_parts p) = ''.'' then Inr fsys else mkdir fsys p
            | Inl e \<Rightarrow> Inl e
            | Inr fsys' \<Rightarrow>
                if snd (makedirs_parts p) = ''.'' then Inr fsys' else mkdir fsys' p)
      else mkdir fsys p)"
  by pat_completeness auto
termination
proof (relation "measure (\<lambda>(fsys, p). length p)")
  show "wf (measure (\<lambda>(fsys :: filesystem, p :: string). length p))"
    by simp
next
  fix fsys :: filesystem and p :: string
  assume "fst (makedirs_parts p) \<noteq> [] \<and> snd (makedirs_parts p) \<noteq> []
            \<and> \<not> path_exists fsys (fst (makedirs_parts p))"
  then have tail: "snd (makedirs_parts p) \<noteq> []"
    by simp
  have split_le: "length (fst (path_split q)) + length (snd (path_split q)) \<le> length q"
    for q :: string
  proof -
    let ?h = "dropWhile (\<lambda>c. c \<noteq> CHR ''/'') (rev q)"
    let ?t = "takeWhile (\<lambda>c. c \<noteq> CHR ''/'') (rev q)"
    have "length ?t + length ?h = length (rev q)"
      by (metis length_append takeWhile_dropWhile_id)
    moreover have "length (rstrip_slash (rev ?h)) \<le> length ?h"
      by (simp add: rstrip_slash_def length_dropWhile_le)
    ultimately show ?thesis
      by (simp add: path_split_def Let_def)
  qed
  have "length (fst (makedirs_parts p)) + length (snd (makedirs_parts p)) \<le> length p"
  proof (cases "snd (path_split p) = []")
    case True
    have "length (fst (path_split (fst (path_split p))))
            + length (snd (path_split (fst (path_split p)))) \<le> length (fst (path_split p))"
      by (rule split_le)
    also have "\<dots> \<le> length p"
      using split_le [of p] by simp
    finally show ?thesis
      using True by (simp add: makedirs_parts_def)
  next
    case False
    then show ?thesis
      using split_le [of p] by (simp add: makedirs_parts_def)
  qed
  with tail have "length (fst (makedirs_parts p)) < length p"
    by (cases "snd (makedirs_parts p)") auto
  then show "((fsys, fst (makedirs_parts p)), (fsys, p)) \<in> measure (\<lambda>(fsys, p). length p)"
    by simp
qed

declare makedirs.simps [simp del]

text \<open>
  \<^verbatim>\<open>shutil.copy2\<close>: a destination that is a directory receives the file under the
  source's base name; the copy carries the content and the permission bits.
\<close>

definition copy2 :: "filesystem \<Rightarrow> string \<Rightarrow> string \<Rightarrow> exn + filesystem" where
  "copy2 fsys src dst =
     (let target = (if isdir fsys dst
                    then (if last dst = CHR ''/'' then dst else dst @ ''/'') @ basename src
                    else dst)
      in case map_of (files fsys) src of
           None \<Rightarrow>
             if isdir fsys src then Inl (IsADirectoryError src)
             else if isfile fsys (dirname src) then Inl (NotADirectoryError src)
             else Inl (FileNotFoundError src)
         | Some f \<Rightarrow>
             if target = src then Inl (SameFileError src)
             else if isdir fsys target then Inl (IsADirectoryError target)
             else if \<not> parent_isdir fsys target then Inl (parent_error fsys target)
             else Inr (fsys\<lparr>files := AList.update target f (files fsys)\<rparr>))"

definition remove :: "filesystem \<Rightarrow> string \<Rightarrow> exn + filesystem" where
  "remove fsys p =
     (if isfile fsys p then Inr (fsys\<lparr>files := AList.delete p (files fsys)\<rparr>)
      else if isdir fsys p then Inl (IsADirectoryError p)
      else Inl (FileNotFoundError p))"

definition chmod :: "filesystem \<Rightarrow> string \<Rightarrow> 16 word \<Rightarrow> exn + filesystem" where
  "chmod fsys p m =
     (case map_of (files fsys) p of
        Some f \<Rightarrow> Inr (fsys\<lparr>files := AList.update p (f\<lparr>mode := m\<rparr>) (files fsys)\<rparr>)
      | None \<Rightarrow>
          if isdir fsys p then Inr (fsys\<lparr>dirs := AList.update p m (dirs fsys)\<rparr>)
          else Inl (FileNotFoundError p))"

text \<open>Writing the committed database of the file at \<open>p\<close>.\<close>

definition write_content :: "filesystem \<Rightarrow> string \<Rightarrow> database \<Rightarrow> filesystem" where
  "write_content fsys p db =
     fsys\<lparr>files := AList.update p
        (case map_of (files fsys) p of
           Some f \<Rightarrow> f\<lparr>content := db\<rparr>
         | None \<Rightarrow> \<lparr>content = db, mode = 420 AND NOT (umask fsys)\<rparr>) (files fsys)\<rparr>"

text \<open>
  \<^verbatim>\<open>glob.glob(f"{directory}/{basename}.*{suffix}")\<close>: the entries of the directory,
  regular files and directories alike, whose name is the base name, a dot, any text
  without a slash, and the suffix.  The characters of directory, base name and suffix are
  taken to stand for themselves; \<^verbatim>\<open>glob\<close> reads \<^verbatim>\<open>*\<close>, \<^verbatim>\<open>?\<close> and
  \<^verbatim>\<open>[\<close> in them as pattern characters, so for a store whose file name or backup
  directory has one of these the program's listing can differ from this one.  The order
  of the result is the order of the two listings, files first.
\<close>

definition snapshot_match :: "string \<Rightarrow> string \<Rightarrow> string \<Rightarrow> string \<Rightarrow> bool" where
  "snapshot_match directory bname suffix p =
     (let pre = directory @ ''/'' @ bname @ ''.''
      in length pre + length suffix \<le> length p
         \<and> take (length pre) p = pre
         \<and> drop (length p - length suffix) p = suffix
         \<and> CHR ''/'' \<notin> set (drop (length directory + 1) p))"

definition glob_snapshots :: "filesystem \<Rightarrow> string \<Rightarrow> string \<Rightarrow> string \<Rightarrow> string list" where
  "glob_snapshots fsys directory bname suffix =
     filter (snapshot_match directory bname suffix)
       (map fst (files fsys) @ map fst (dirs fsys))"

section \<open>The store object\<close>

text \<open>
  Modelled from the spec: the modules \<^verbatim>\<open>dls_normsql.constants\<close> and
  \<^verbatim>\<open>dls_normsql.table_definition\<close> are not part of the sources at hand.  The
  bookkeeping table is named \<^verbatim>\<open>revision\<close> and has the columns \<^verbatim>\<open>created_on\<close> and
  \<^verbatim>\<open>number\<close>; a table definition is a name and an ordered mapping from field name to
  storage type and index flag.  The two identity field names are only used by
  \<open>update\<close>, where all that matters is that they differ from the two columns above.
\<close>

definition REVISION :: string where
  "REVISION = ''revision''"

definition CREATED_ON :: string where
  "CREATED_ON = ''created_on''"

definition NUMBER :: string where
  "NUMBER = ''number''"

definition UUID :: string where
  "UUID = ''uuid''"

definition AUTOID :: string where
  "AUTOID = ''autoid''"

record field_spec =
  type_tag :: string
  indexed :: bool

record table_definition =
  name :: string
  table_fields :: "(string \<times> field_spec) list"

definition RevisionTableDefinition :: table_definition where
  "RevisionTableDefinition =
     \<lparr>name = ''revision'',
      table_fields = [(CREATED_ON, \<lparr>type_tag = ''TEXT'', indexed = True\<rparr>),
                      (NUMBER, \<lparr>type_tag = ''INTEGER'', indexed = False\<rparr>)]\<rparr>"

text \<open>A method's \<open>table\<close> argument is a table name or a table definition.\<close>

datatype table_ref = ByName string | ByDefinition table_definition

text \<open>
  The live connection: the database as this connection sees it (the committed file
  content with the changes of the open transaction), whether a transaction is open, the
  number of open cursors and the registered SQL functions with their arity.
\<close>

record live_connection =
  current :: database
  in_transaction :: bool
  open_cursors :: nat
  sql_functions :: "(string \<times> nat) list"

text \<open>
  The object's attributes, together with the world it acts on: the file system, the text
  \<^verbatim>\<open>datetime.now().strftime(...)\<close> gives and the text \<^verbatim>\<open>isodatetime_filename()\<close> gives.
\<close>

record store =
  filename :: string
  backup_directory :: string
  connection :: "live_connection option"
  tables :: "(string \<times> table_definition) list"
  LATEST_REVISION :: int
  last_restore :: int
  fs :: filesystem
  now :: string
  timestamp :: string

text \<open>The constructor, from the specification's \<^verbatim>\<open>filename\<close> and optional
  \<^verbatim>\<open>backup_directory\<close>, in a given world.\<close>

definition init :: "string \<Rightarrow> string option \<Rightarrow> filesystem \<Rightarrow> string \<Rightarrow> string \<Rightarrow> store" where
  "init fname bdir fsys clock stamp =
     \<lparr>filename = fname,
      backup_directory = (case bdir of Some d \<Rightarrow> d | None \<Rightarrow> dirname fname),
      connection = None,
      tables = [],
      LATEST_REVISION = 1,
      last_restore = 0,
      fs = fsys,
      now = clock,
      timestamp = stamp\<rparr>"

text \<open>Sequencing: the second step runs only when the first returns.\<close>

definition and_then ::
  "(exn + 'a) \<times> store \<Rightarrow> ('a \<Rightarrow> store \<Rightarrow> (exn + 'b) \<times> store) \<Rightarrow> (exn + 'b) \<times> store" where
  "and_then r f = (case r of (Inl e, s) \<Rightarrow> (Inl e, s) | (Inr x, s) \<Rightarrow> f x s)"

text \<open>Lifting a file system operation to the store.\<close>

definition on_fs :: "(filesystem \<Rightarrow> exn + filesystem) \<Rightarrow> store \<Rightarrow> (exn + unit) \<times> store" where
  "on_fs f s = (case f (fs s) of Inl e \<Rightarrow> (Inl e, s) | Inr fsys \<Rightarrow> (Inr (), s\<lparr>fs := fsys\<rparr>))"

text \<open>
  Modelled from the spec: \<^verbatim>\<open>require\<close> of dls_utilpack looks a key up and raises when it
  is missing (the spec's NotFound error).
\<close>

definition require :: "string \<Rightarrow> (string \<times> 'a) list \<Rightarrow> string \<Rightarrow> exn + 'a" where
  "require what d k =
     (case map_of d k of
        Some v \<Rightarrow> Inr v
      | None \<Rightarrow> Inl (NotFound (what @ '' does not contain keyword '' @ k)))"

definition resolve :: "store \<Rightarrow> table_ref \<Rightarrow> exn + table_definition" where
  "resolve s table =
     (case table of
        ByName n \<Rightarrow> require ''table definitions'' (tables s) n
      | ByDefinition td \<Rightarrow> Inr td)"

text \<open>
  Modelled from the spec: \<^verbatim>\<open>explain\<close> of dls_utilpack renders an exception and the
  activity it interrupted as one text that keeps the exception's own message.
\<close>

fun exn_text :: "exn \<Rightarrow> string" where
  "exn_text (RuntimeError m) = ''RuntimeError: '' @ m"
| "exn_text (OperationalError m) = ''OperationalError: '' @ m"
| "exn_text (ProgrammingError m) = ''ProgrammingError: '' @ m"
| "exn_text (NotFound m) = ''NotFound: '' @ m"
| "exn_text AttributeError = ''AttributeError''"
| "exn_text IndexError = ''IndexError''"
| "exn_text TypeError = ''TypeError''"
| "exn_text (FileNotFoundError m) = ''FileNotFoundError: '' @ m"
| "exn_text (FileExistsError m) = ''FileExistsError: '' @ m"
| "exn_text (NotADirectoryError m) = ''NotADirectoryError: '' @ m"
| "exn_text (IsADirectoryError m) = ''IsADirectoryError: '' @ m"
| "exn_text (SameFileError m) = ''SameFileError: '' @ m"

definition explain :: "exn \<Rightarrow> string \<Rightarrow> string" where
  "explain e activity = activity @ '': '' @ exn_text e"

subsection \<open>Engine calls through the connection\<close>

text \<open>
  The Python binding opens a transaction before an INSERT or UPDATE and not before other
  statements; a statement run while no transaction is open is committed at once.  A call
  on the connection attribute while it is \<^verbatim>\<open>None\<close> raises AttributeError.
\<close>

definition connection_commit :: "store \<Rightarrow> (exn + unit) \<times> store" where
  "connection_commit s =
     (case connection s of
        None \<Rightarrow> (Inl AttributeError, s)
      | Some c \<Rightarrow>
          (Inr (), s\<lparr>connection := Some (c\<lparr>in_transaction := False\<rparr>),
                     fs := write_content (fs s) (filename s) (current c)\<rparr>))"

definition connection_execute ::
  "(database \<Rightarrow> exn + database) \<Rightarrow> store \<Rightarrow> (exn + unit) \<times> store" where
  "connection_execute stmt s =
     (case connection s of
        None \<Rightarrow> (Inl AttributeError, s)
      | Some c \<Rightarrow>
          (case stmt (current c) of
             Inl e \<Rightarrow> (Inl e, s)
           | Inr db \<Rightarrow>
               (Inr (), s\<lparr>connection := Some (c\<lparr>current := db\<rparr>),
                          fs := (if in_transaction c then fs s
                                 else write_content (fs s) (filename s) db)\<rparr>)))"

text \<open>
  \<^verbatim>\<open>aiosqlite.connect\<close>: opens the file, creating an empty database file when there is
  none and its directory exists.
\<close>

definition engine_connect :: "filesystem \<Rightarrow> string \<Rightarrow> exn + (live_connection \<times> filesystem)" where
  "engine_connect fsys p =
     (case map_of (files fsys) p of
        Some f \<Rightarrow>
          Inr (\<lparr>current = content f, in_transaction = False, open_cursors = 0,
                sql_functions = []\<rparr>, fsys)
      | None \<Rightarrow>
          if \<not> isdir fsys p \<and> parent_isdir fsys p
          then Inr (\<lparr>current = [], in_transaction = False, open_cursors = 0,
                     sql_functions = []\<rparr>, write_content fsys p [])
          else Inl (OperationalError ''unable to open database file''))"

subsection \<open>Methods\<close>

text \<open>
  The methods \<open>execute\<close> and \<open>rollback\<close> take no part in any property below and
  are not modelled.
\<close>

definition disconnect :: "store \<Rightarrow> store" where
  "disconnect s = (if connection s \<noteq> None then s\<lparr>connection := None\<rparr> else s)"

text \<open>
  \<open>__create_directory\<close>.  The saved umask is put back after \<^verbatim>\<open>os.makedirs\<close>
  returns; when it raises, the statement that puts it back is not reached.
\<close>

definition create_directory :: "store \<Rightarrow> string \<Rightarrow> (exn + unit) \<times> store" where
  "create_directory s fname =
     (let directory = fst (path_split fname)
      in if \<not> path_exists (fs s) directory
         then (let saved = umask (fs s);
                   fsys = (fs s)\<lparr>umask := saved AND NOT 511\<rparr>
               in case makedirs fsys directory of
                    Inl e \<Rightarrow> (Inl e, s\<lparr>fs := fsys\<rparr>)
                  | Inr fsys' \<Rightarrow> (Inr (), s\<lparr>fs := fsys'\<lparr>umask := saved\<rparr>\<rparr>))
         else (Inr (), s))"

definition add_table_definition :: "store \<Rightarrow> table_definition \<Rightarrow> store" where
  "add_table_definition s td = s\<lparr>tables := AList.update (name td) td (tables s)\<rparr>"

definition add_table_definitions :: "store \<Rightarrow> store" where
  "add_table_definitions s = add_table_definition s RevisionTableDefinition"

definition commit :: "store \<Rightarrow> (exn + unit) \<times> store" where
  "commit s =
     (case connection s of
        None \<Rightarrow> (Inl AttributeError, s)
      | Some c \<Rightarrow> if in_transaction c then connection_commit s else (Inr (), s))"

text \<open>The statements \<open>create_table\<close> formats, as text.\<close>

definition create_table_sql :: "table_definition \<Rightarrow> string" where
  "create_table_sql td =
     ''CREATE TABLE '' @ name td @ ''('' @
     join_comma (map (\<lambda>(f, spec). f @ '' '' @ type_tag spec) (table_fields td)) @ '')''"

definition index_name :: "table_definition \<Rightarrow> string \<Rightarrow> string" where
  "index_name td f = name td @ ''_'' @ f"

text \<open>The loop that runs the collected CREATE INDEX statements.\<close>

fun create_indices :: "table_definition \<Rightarrow> string list \<Rightarrow> store \<Rightarrow> (exn + unit) \<times> store" where
  "create_indices td [] s = (Inr (), s)"
| "create_indices td (f # fs') s =
     and_then
       (connection_execute (\<lambda>db. engine_create_index db (index_name td f) (name td) f) s)
       (\<lambda>_. create_indices td fs')"

definition create_table :: "store \<Rightarrow> table_ref \<Rightarrow> bool \<Rightarrow> (exn + unit) \<times> store" where
  "create_table s table should_commit =
     (case resolve s table of
        Inl e \<Rightarrow> (Inl e, s)
      | Inr td \<Rightarrow>
          and_then
            (connection_execute (\<lambda>db. Inr (engine_drop_table_if_exists db (name td))) s)
            (\<lambda>_ s1. and_then
               (connection_execute
                  (\<lambda>db. engine_create_table db (name td) (map fst (table_fields td))) s1)
               (\<lambda>_ s2. and_then
                  (create_indices td
                     (map fst (filter (\<lambda>(f, spec). indexed spec) (table_fields td))) s2)
                  (\<lambda>_ s3. if should_commit then connection_commit s3 else (Inr (), s3)))))"

text \<open>The loop of \<open>create_schemas\<close> over the registered definitions.\<close>

fun create_tables :: "table_definition list \<Rightarrow> store \<Rightarrow> (exn + unit) \<times> store" where
  "create_tables [] s = (Inr (), s)"
| "create_tables (td # tds) s =
     and_then (create_table s (ByDefinition td) False) (\<lambda>_. create_tables tds)"

definition create_schemas :: "store \<Rightarrow> bool \<Rightarrow> (exn + unit) \<times> store" where
  "create_schemas s should_commit =
     and_then (create_tables (map snd (tables s)) s)
       (\<lambda>_ s1. if should_commit then connection_commit s1 else (Inr (), s1))"

subsection \<open>insert\<close>

text \<open>
  A row is a dictionary from field name to value.  The field list of the statement comes
  from the first row, the values of each row from that row itself.
\<close>

definition insertable_fields :: "table_definition \<Rightarrow> (string \<rightharpoonup> sqlvalue) \<Rightarrow> string list" where
  "insertable_fields td first_row =
     filter (\<lambda>f. first_row f \<noteq> None \<or> f = CREATED_ON) (map fst (table_fields td))"

definition values_row :: "table_definition \<Rightarrow> string \<Rightarrow> (string \<rightharpoonup> sqlvalue) \<Rightarrow> sqlvalue list" where
  "values_row td clock row =
     concat (map (\<lambda>f. case row f of
                         Some v \<Rightarrow> [v]
                       | None \<Rightarrow> if f = CREATED_ON then [TextV clock] else [])
               (map fst (table_fields td)))"

definition insert_sql :: "table_definition \<Rightarrow> string list \<Rightarrow> string" where
  "insert_sql td flds =
     ''INSERT INTO '' @ name td @ '' ('' @ join_comma flds @ '') VALUES ('' @
     join_comma (replicate (length flds) ''?'') @ '')''"

definition failed_to_execute :: "string option \<Rightarrow> string \<Rightarrow> string" where
  "failed_to_execute why sql =
     (case why of
        None \<Rightarrow> ''failed to execute '' @ sql
      | Some w \<Rightarrow> ''failed to execute '' @ w @ '': '' @ sql)"

text \<open>
  What an \<^verbatim>\<open>except aiosqlite.OperationalError\<close> clause catches, and that clause as
  insert, update and execute have it.
\<close>

fun is_operational :: "exn \<Rightarrow> bool" where
  "is_operational (OperationalError m) = True"
| "is_operational e = False"

definition wrap_operational ::
  "string option \<Rightarrow> string \<Rightarrow> (exn + 'a) \<times> store \<Rightarrow> (exn + 'a) \<times> store" where
  "wrap_operational why sql r =
     (case r of
        (Inl e, s) \<Rightarrow>
          if is_operational e then (Inl (RuntimeError (failed_to_execute why sql)), s) else r
      | (Inr x, s) \<Rightarrow> r)"

definition connection_executemany ::
  "string \<Rightarrow> string list \<Rightarrow> sqlvalue list list \<Rightarrow> store \<Rightarrow> (exn + unit) \<times> store" where
  "connection_executemany n flds values_rows s =
     (case connection s of
        None \<Rightarrow> (Inl AttributeError, s)
      | Some c \<Rightarrow>
          (case engine_insert (current c) n flds values_rows of
             (Some e, db) \<Rightarrow>
               if is_operational e then (Inl e, s)
               else (Inl e,
                     s\<lparr>connection := Some (c\<lparr>current := db, in_transaction := True\<rparr>)\<rparr>)
           | (None, db) \<Rightarrow>
               (Inr (), s\<lparr>connection := Some (c\<lparr>current := db, in_transaction := True\<rparr>)\<rparr>)))"

definition insert_rows ::
  "store \<Rightarrow> table_ref \<Rightarrow> (string \<rightharpoonup> sqlvalue) list \<Rightarrow> string option \<Rightarrow> bool
     \<Rightarrow> (exn + unit) \<times> store" where
  "insert_rows s table rws why should_commit =
     (if length rws = 0 then (Inr (), s)
      else case resolve s table of
        Inl e \<Rightarrow> (Inl e, s)
      | Inr td \<Rightarrow>
          (let flds = insertable_fields td (hd rws);
               values_rows = map (values_row td (now s)) rws
           in wrap_operational why (insert_sql td flds)
                (and_then (connection_executemany (name td) flds values_rows s)
                   (\<lambda>_ s1. if should_commit then connection_commit s1 else (Inr (), s1)))))"

subsection \<open>update\<close>

definition updatable_fields :: "table_definition \<Rightarrow> (string \<rightharpoonup> sqlvalue) \<Rightarrow> string list" where
  "updatable_fields td row =
     filter (\<lambda>f. \<not> (f = UUID \<or> f = AUTOID) \<and> row f \<noteq> None) (map fst (table_fields td))"

definition update_sql :: "table_definition \<Rightarrow> string list \<Rightarrow> predicate \<Rightarrow> string" where
  "update_sql td flds wh =
     ''UPDATE '' @ name td @ '' SET '' @ join_comma (map (\<lambda>f. f @ '' = ?'') flds) @
     '' WHERE '' @ where_sql wh"

definition connection_execute_update ::
  "string \<Rightarrow> string list \<Rightarrow> predicate \<Rightarrow> sqlvalue list \<Rightarrow> store \<Rightarrow> (exn + nat) \<times> store" where
  "connection_execute_update n flds wh vals s =
     (case connection s of
        None \<Rightarrow> (Inl AttributeError, s)
      | Some c \<Rightarrow>
          (case engine_update (current c) n flds wh vals of
             Inl e \<Rightarrow>
               if is_operational e then (Inl e, s)
               else (Inl e, s\<lparr>connection := Some (c\<lparr>in_transaction := True\<rparr>)\<rparr>)
           | Inr (rowcount, db) \<Rightarrow>
               (Inr rowcount,
                s\<lparr>connection := Some (c\<lparr>current := db, in_transaction := True\<rparr>)\<rparr>)))"

definition update_rows ::
  "store \<Rightarrow> table_ref \<Rightarrow> (string \<rightharpoonup> sqlvalue) \<Rightarrow> predicate \<Rightarrow> sqlvalue list option
     \<Rightarrow> string option \<Rightarrow> bool \<Rightarrow> (exn + nat) \<times> store" where
  "update_rows s table row wh subs why should_commit =
     (case resolve s table of
        Inl e \<Rightarrow> (Inl e, s)
      | Inr td \<Rightarrow>
          (let flds = updatable_fields td row;
               vals = concat (map (\<lambda>f. case row f of Some v \<Rightarrow> [v] | None \<Rightarrow> []) flds)
           in if length vals = 0
              then (Inl (RuntimeError ''no fields in record match database table''), s)
              else wrap_operational why (update_sql td flds wh)
                     (and_then
                        (connection_execute_update (name td) flds wh
                           (vals @ (case subs of None \<Rightarrow> [] | Some xs \<Rightarrow> xs)) s)
                        (\<lambda>rowcount s1.
                           if should_commit
                           then and_then (connection_commit s1) (\<lambda>_ s2. (Inr rowcount, s2))
                           else (Inr rowcount, s1)))))"

subsection \<open>query\<close>

text \<open>
  Each fetched row becomes an OrderedDict: assigning to a key that is already there keeps
  the key's place and replaces its value.  A fetched row has one value per column label.
\<close>

definition make_record :: "string list \<Rightarrow> sqlvalue list \<Rightarrow> (string \<times> sqlvalue) list" where
  "make_record cols row = foldl (\<lambda>record (col, v). AList.update col v record) [] (zip cols row)"

definition cursor_open :: "store \<Rightarrow> store" where
  "cursor_open s =
     (case connection s of
        None \<Rightarrow> s
      | Some c \<Rightarrow> s\<lparr>connection := Some (c\<lparr>open_cursors := open_cursors c + 1\<rparr>)\<rparr>)"

definition cursor_close :: "store \<Rightarrow> store" where
  "cursor_close s =
     (case connection s of
        None \<Rightarrow> s
      | Some c \<Rightarrow> s\<lparr>connection := Some (c\<lparr>open_cursors := open_cursors c - 1\<rparr>)\<rparr>)"

definition query ::
  "store \<Rightarrow> select_statement \<Rightarrow> sqlvalue list option \<Rightarrow> string option
     \<Rightarrow> (exn + (string \<times> sqlvalue) list list) \<times> store" where
  "query s sql subs why =
     (case connection s of
        None \<Rightarrow> (Inl AttributeError, s)
      | Some c \<Rightarrow>
          (let s1 = cursor_open s;
               outcome =
                 (case engine_select (current c) sql (case subs of None \<Rightarrow> [] | Some xs \<Rightarrow> xs) of
                    Inl e \<Rightarrow>
                      if is_operational e
                      then Inl (RuntimeError
                             (explain e
                                (case why of
                                   None \<Rightarrow> ''executing '' @ select_sql sql
                                 | Some w \<Rightarrow> ''executing '' @ w @ '': '' @ select_sql sql)))
                      else Inl e
                  | Inr (cols, rws) \<Rightarrow> Inr (map (make_record cols) rws))
           in (outcome, cursor_close s1)))"

subsection \<open>connect and the migration steps\<close>

definition apply_revision :: "store \<Rightarrow> int \<Rightarrow> (exn + unit) \<times> store" where
  "apply_revision s revision =
     (if revision = 1
      then and_then (create_table s (ByName REVISION) True)
             (\<lambda>_ s1. insert_rows s1 (ByName REVISION) [[''revision'' \<mapsto> IntV revision]]
                        None True)
      else (Inr (), s))"

text \<open>
  The loop \<^verbatim>\<open>for revision in range(old_revision, LATEST_REVISION)\<close>, whose body calls
  \<^verbatim>\<open>apply_revision(revision + 1)\<close>: the revisions it applies, and their application
  one after the other.
\<close>

definition migration_steps :: "int \<Rightarrow> int \<Rightarrow> int list" where
  "migration_steps old_revision latest =
     map (\<lambda>revision. revision + 1) (py_range2 old_revision latest)"

fun apply_revisions :: "int list \<Rightarrow> store \<Rightarrow> (exn + unit) \<times> store" where
  "apply_revisions [] s = (Inr (), s)"
| "apply_revisions (revision # rest) s =
     and_then (apply_revision s revision) (\<lambda>_. apply_revisions rest)"

text \<open>
  The \<^verbatim>\<open>try\<close> block that reads the stored revision: any exception, and an empty
  result, give 0; otherwise the value of the first record, whatever it is.
\<close>

definition read_revision :: "store \<Rightarrow> sqlvalue \<times> store" where
  "read_revision s =
     (case query s \<lparr>sel_columns = [''number''], sel_table = REVISION, sel_where = None\<rparr>
             None (Some ''get database revision'') of
        (Inl e, s1) \<Rightarrow> (IntV 0, s1)
      | (Inr records, s1) \<Rightarrow>
          (if length records = 0 then IntV 0
           else (case map_of (hd records) ''number'' of Some v \<Rightarrow> v | None \<Rightarrow> IntV 0), s1))"

definition connect :: "store \<Rightarrow> (exn + unit) \<times> store" where
  "connect s =
     (let should_create_schemas = \<not> isfile (fs s) (filename s)
      in and_then
           (if should_create_schemas then create_directory s (filename s) else (Inr (), s))
           (\<lambda>_ s1.
              case engine_connect (fs s1) (filename s1) of
                Inl e \<Rightarrow> (Inl e, s1)
              | Inr (c, fsys) \<Rightarrow>
                  (let s2 = s1\<lparr>connection :=
                                 Some (c\<lparr>sql_functions :=
                                          AList.update ''regexp'' 2 (sql_functions c)\<rparr>),
                               fs := fsys\<rparr>;
                       s3 = add_table_definitions s2
                   in if should_create_schemas
                      then and_then (create_schemas s3 True)
                             (\<lambda>_ s4. and_then
                                (insert_rows s4 (ByName REVISION)
                                   [[''number'' \<mapsto> IntV (LATEST_REVISION s4)]] None True)
                                (\<lambda>_ s5. on_fs (\<lambda>fsys. chmod fsys (filename s5) 438) s5))
                      else (case read_revision s3 of
                              (IntV old_revision, s4) \<Rightarrow>
                                if old_revision < LATEST_REVISION s4
                                then and_then
                                       (apply_revisions
                                          (migration_steps old_revision
                                             (LATEST_REVISION s4)) s4)
                                       (\<lambda>_ s5. and_then
                                          (update_rows s5 (ByName REVISION)
                                             [''number'' \<mapsto> IntV (LATEST_REVISION s5)]
                                             Tautology None
                                             (Some ''update database revision'') True)
                                          (\<lambda>_ s6. (Inr (), s6)))
                                else (Inr (), s4)
                            | (_, s4) \<Rightarrow> (Inl TypeError, s4)))))"

subsection \<open>backup and restore\<close>

text \<open>
  Both methods run their copy under the same lock.  The model is sequential: the lock is
  free when a method starts and free again when it ends, so it leaves no trace in the
  state.
\<close>

definition snapshot_listing :: "store \<Rightarrow> string list" where
  "snapshot_listing s =
     rev (sort (glob_snapshots (fs s) (backup_directory s)
                  (fst (splitext (basename (filename s))))
                  (snd (splitext (basename (filename s))))))"

text \<open>The loop \<^verbatim>\<open>for restore in range(self.__last_restore)\<close> of backup.\<close>

fun prune :: "string list \<Rightarrow> int list \<Rightarrow> store \<Rightarrow> (exn + unit) \<times> store" where
  "prune filenames [] s = (Inr (), s)"
| "prune filenames (restore # rest) s =
     (case py_index filenames restore of
        Inl e \<Rightarrow> (Inl e, s)
      | Inr f \<Rightarrow> and_then (on_fs (\<lambda>fsys. remove fsys f) s) (\<lambda>_. prune filenames rest))"

text \<open>
  The \<^verbatim>\<open>try \<dots> except Exception \<dots> finally\<close> statement around the copy: an exception
  of the attempt becomes a RuntimeError with the given message, \<open>connect\<close> runs in every
  case, and an exception of \<open>connect\<close> replaces whatever was on its way out.
\<close>

definition copy_then_connect :: "(exn + unit) \<times> store \<Rightarrow> string \<Rightarrow> (exn + unit) \<times> store" where
  "copy_then_connect attempt message =
     (case attempt of
        (r, s) \<Rightarrow>
          (case connect s of
             (Inl e, s') \<Rightarrow> (Inl e, s')
           | (Inr _, s') \<Rightarrow>
               ((case r of Inl _ \<Rightarrow> Inl (RuntimeError message) | Inr x \<Rightarrow> Inr x), s')))"

definition copy_failed :: "string \<Rightarrow> string \<Rightarrow> string" where
  "copy_failed src dst = ''copy '' @ src @ '' to '' @ dst @ '' failed''"

text \<open>The block of backup that runs under the lock.\<close>

definition backup_to :: "store \<Rightarrow> string \<Rightarrow> (exn + unit) \<times> store" where
  "backup_to s to_filename =
     copy_then_connect
       (and_then (create_directory (disconnect s) to_filename)
          (\<lambda>_. on_fs (\<lambda>fsys. copy2 fsys (filename s) to_filename)))
       (copy_failed (filename s) to_filename)"

definition snapshot_name :: "store \<Rightarrow> string" where
  "snapshot_name s =
     backup_directory s @ ''/'' @ fst (splitext (basename (filename s))) @ ''.'' @
     timestamp s @ snd (splitext (basename (filename s)))"

definition backup :: "store \<Rightarrow> (exn + unit) \<times> store" where
  "backup s =
     and_then (prune (snapshot_listing s) (py_range (last_restore s)) s)
       (\<lambda>_ s1. backup_to (s1\<lparr>last_restore := 0\<rparr>) (snapshot_name s1))"

text \<open>The part of restore that follows the choice of the snapshot.\<close>

definition restore_from :: "store \<Rightarrow> int \<Rightarrow> string \<Rightarrow> (exn + unit) \<times> store" where
  "restore_from s nth' from_filename =
     and_then
       (copy_then_connect
          (on_fs (\<lambda>fsys. copy2 fsys from_filename (filename s)) (disconnect s))
          (copy_failed from_filename (filename s)))
       (\<lambda>_ s1. (Inr (), s1\<lparr>last_restore := nth'\<rparr>))"

definition restore :: "store \<Rightarrow> int \<Rightarrow> (exn + unit) \<times> store" where
  "restore s nth' =
     (let filenames = snapshot_listing s
      in if nth' \<ge> int (length filenames)
         then (Inl (RuntimeError (''restoration index '' @ str_int nth' @
                       '' is more than available '' @ str_int (int (length filenames)))), s)
         else case py_index filenames nth' of
           Inl e \<Rightarrow> (Inl e, s)
         | Inr from_filename \<Rightarrow> restore_from s nth' from_filename)"

section \<open>Auxiliary notions\<close>

text \<open>
  The attributes of the object that no method but restore and backup assigns, together
  with the two clock readings of the world; and whether the object holds a connection.
\<close>

definition attributes_kept :: "store \<Rightarrow> store \<Rightarrow> bool" where
  "attributes_kept s s' =
     (filename s' = filename s \<and> backup_directory s' = backup_directory s
      \<and> LATEST_REVISION s' = LATEST_REVISION s \<and> last_restore s' = last_restore s
      \<and> now s' = now s \<and> timestamp s' = timestamp s)"

definition is_connected :: "store \<Rightarrow> bool" where
  "is_connected s = (connection s \<noteq> None)"

text \<open>
  The file system without the files of a list of paths.
\<close>

definition remove_all :: "string list \<Rightarrow> filesystem \<Rightarrow> filesystem" where
  "remove_all ps fsys = fsys\<lparr>files := filter (\<lambda>(p, f). p \<notin> set ps) (files fsys)\<rparr>"

text \<open>
  Two rows agree on a table's schema when they give every field of the schema the same
  value, or both none.
\<close>

definition agree_on_schema ::
  "table_definition \<Rightarrow> (string \<rightharpoonup> sqlvalue) \<Rightarrow> (string \<rightharpoonup> sqlvalue) \<Rightarrow> bool" where
  "agree_on_schema td r r' = list_all (\<lambda>f. r f = r' f) (map fst (table_fields td))"

text \<open>
  The state in which connect finds an existing file \<open>f\<close> once the engine has opened it,
  the pattern-match function is registered and the bookkeeping table's definition is in
  the registry; the bookkeeping table as \<open>create_table\<close> makes it; and a database
  after the migration to revision \<open>n\<close> at the instant \<open>clock\<close>.
\<close>

definition opened_store :: "store \<Rightarrow> stored_file \<Rightarrow> store" where
  "opened_store s f =
     add_table_definitions
       (s\<lparr>connection :=
            Some \<lparr>current = content f, in_transaction = False, open_cursors = 0,
                  sql_functions = [(''regexp'', 2)]\<rparr>\<rparr>)"



section \<open>Concrete stores\<close>

text \<open>
  Stores for the worked instances below.  The first has its live file and two snapshots
  in the directory \<^verbatim>\<open>/d\<close>, the older snapshot being an empty database; it also
  appears after a restore of index 1, connected, and with its bookkeeping table emptied.
\<close>

definition current_database :: database where
  "current_database =
     [(''revision'',
       \<lparr>columns = [''created_on'', ''number''], indices = [''revision_created_on''],
        rows = [[TextV ''2024-01-01 09:00:00.000000'', IntV 1]]\<rparr>)]"

definition two_snapshots :: filesystem where
  "two_snapshots =
     \<lparr>files = [(''/d/s.db'', \<lparr>content = current_database, mode = 438\<rparr>),
               (''/d/s.1.db'', \<lparr>content = [], mode = 438\<rparr>),
               (''/d/s.2.db'', \<lparr>content = current_database, mode = 438\<rparr>)],
      dirs = [(''/d'', 511)], umask = 18\<rparr>"

definition store_two :: store where
  "store_two = init ''/d/s.db'' None two_snapshots ''2024-01-02 09:00:00.000000'' ''3''"

definition store_rewound :: store where
  "store_rewound = store_two\<lparr>last_restore := 1\<rparr>"

definition store_open :: store where
  "store_open = snd (connect store_two)"

definition store_emptied :: store where
  "store_emptied = snd (create_table store_open (ByName ''revision'') True)"

text \<open>
  The same live file with one snapshot and, beside it, a directory whose name has the
  form of a newer snapshot; the last-restore index is 1.
\<close>

definition nested_directory :: filesystem where
  "nested_directory =
     \<lparr>files = [(''/d/s.db'', \<lparr>content = current_database, mode = 438\<rparr>),
               (''/d/s.1.db'', \<lparr>content = [], mode = 438\<rparr>)],
      dirs = [(''/d'', 511), (''/d/s.2.db'', 511)], umask = 18\<rparr>"

definition store_nested :: store where
  "store_nested =
     (init ''/d/s.db'' None nested_directory ''2024-01-02 09:00:00.000000'' ''3'')
       \<lparr>last_restore := 1\<rparr>"

text \<open>
  A store whose live path lies under a regular file, with one snapshot in another
  directory.
\<close>

definition blocked_files :: filesystem where
  "blocked_files =
     \<lparr>files = [(''/f'', \<lparr>content = [], mode = 420\<rparr>),
               (''/b/s.1.db'', \<lparr>content = current_database, mode = 438\<rparr>)],
      dirs = [(''/b'', 511)], umask = 18\<rparr>"

definition store_blocked :: store where
  "store_blocked = init ''/f/s.db'' (Some ''/b'') blocked_files ''2024-01-02 09:00:00.000000'' ''3''"

text \<open>
  A store whose bookkeeping row has no revision number and whose backup directory is the
  live file itself.
\<close>

definition unnumbered_files :: filesystem where
  "unnumbered_files =
     \<lparr>files = [(''/d/s.db'',
                \<lparr>content = [(''revision'',
                             \<lparr>columns = [''created_on'', ''number''],
                              indices = [''revision_created_on''],
                              rows = [[TextV ''2024-01-01 09:00:00.000000'', Null]]\<rparr>)],
                 mode = 438\<rparr>)],
      dirs = [(''/d'', 511)], umask = 18\<rparr>"

definition store_unnumbered :: store where
  "store_unnumbered =
     init ''/d/s.db'' (Some ''/d/s.db'') unnumbered_files ''2024-01-02 09:00:00.000000'' ''3''"

text \<open>
  A legacy store: an existing file with one table and no bookkeeping table; and the
  state in which connect applies the first migration step to it.
\<close>

definition legacy_files :: filesystem where
  "legacy_files =
     \<lparr>files = [(''/d/old.db'',
                \<lparr>content = [(''samples'', \<lparr>columns = [''name''], indices = [],
                                           rows = [[TextV ''a'']]\<rparr>)],
                 mode = 420\<rparr>)],
      dirs = [(''/d'', 493)], umask = 18\<rparr>"

definition store_legacy :: store where
  "store_legacy = init ''/d/old.db'' None legacy_files ''2024-01-02 09:00:00.000000'' ''3''"

definition legacy_opened :: store where
  "legacy_opened =
     opened_store store_legacy
       \<lparr>content = [(''samples'', \<lparr>columns = [''name''], indices = [],
                                     rows = [[TextV ''a'']]\<rparr>)],
        mode = 420\<rparr>"

text \<open>
  Two stores that are not there yet, one named without a directory part.
\<close>

definition nothing_yet :: filesystem where
  "nothing_yet = \<lparr>files = [], dirs = [], umask = 18\<rparr>"

definition store_bare :: store where
  "store_bare = init ''store.sqlite'' None nothing_yet ''2024-01-02 09:00:00.000000'' ''3''"

definition store_fresh :: store where
  "store_fresh =
     init ''/data/store.sqlite'' None nothing_yet ''2024-01-02 09:00:00.000000'' ''3''"

section \<open>Properties\<close>

subsection \<open>What the methods leave alone\<close>

lemma kept_and_then:
  assumes "attributes_kept s0 (snd r)"
    and "\<And>x s'. attributes_kept s0 s' \<Longrightarrow> attributes_kept s0 (snd (f x s'))"
  shows "attributes_kept s0 (snd (and_then r f))"
proof (cases r)
  case (Pair o1 s1)
  with assms show ?thesis
    by (cases o1) (simp_all add: and_then_def)
qed

lemma kept_refl: "attributes_kept s s"
  by (simp add: attributes_kept_def)

lemma kept_connection_commit: "attributes_kept s0 s \<Longrightarrow> attributes_kept s0 (snd (connection_commit s))"
  by (simp add: connection_commit_def attributes_kept_def split: option.splits)

lemma kept_connection_execute:
  "attributes_kept s0 s \<Longrightarrow> attributes_kept s0 (snd (connection_execute stmt s))"
  by (simp add: connection_execute_def attributes_kept_def split: option.splits sum.splits)

lemma kept_on_fs: "attributes_kept s0 s \<Longrightarrow> attributes_kept s0 (snd (on_fs f s))"
  by (simp add: on_fs_def attributes_kept_def split: sum.splits)

lemma kept_create_indices:
  "attributes_kept s0 s \<Longrightarrow> attributes_kept s0 (snd (create_indices td fs' s))"
proof (induction fs' arbitrary: s)
  case Nil
  then show ?case by simp
next
  case (Cons f fs')
  show ?case
    unfolding create_indices.simps
    by (rule kept_and_then) (simp_all add: Cons kept_connection_execute)
qed

lemma kept_create_table:
  "attributes_kept s0 s \<Longrightarrow> attributes_kept s0 (snd (create_table s table should_commit))"
  unfolding create_table_def
  by (auto split: sum.splits
      intro!: kept_and_then kept_connection_execute kept_create_indices
        kept_connection_commit)

lemma kept_create_tables:
  "attributes_kept s0 s \<Longrightarrow> attributes_kept s0 (snd (create_tables tds s))"
proof (induction tds arbitrary: s)
  case Nil
  then show ?case by simp
next
  case (Cons td tds)
  show ?case
    unfolding create_tables.simps
    by (rule kept_and_then) (simp_all add: Cons kept_create_table)
qed

lemma kept_create_schemas:
  "attributes_kept s0 s \<Longrightarrow> attributes_kept s0 (snd (create_schemas s should_commit))"
  unfolding create_schemas_def
  by (auto intro!: kept_and_then kept_create_tables kept_connection_commit)

lemma kept_connection_executemany:
  "attributes_kept s0 s \<Longrightarrow> attributes_kept s0 (snd (connection_executemany n flds vs s))"
  by (simp add: connection_executemany_def attributes_kept_def
      split: option.splits prod.splits)

lemma snd_wrap_operational: "snd (wrap_operational why sql r) = snd r"
  by (simp add: wrap_operational_def split: prod.splits sum.splits)

lemma kept_insert_rows:
  "attributes_kept s0 s \<Longrightarrow> attributes_kept s0 (snd (insert_rows s table rws why should_commit))"
  unfolding insert_rows_def Let_def
  by (auto simp: snd_wrap_operational split: sum.splits
      intro!: kept_and_then kept_connection_executemany kept_connection_commit)


lemma kept_connection_execute_update:
  "attributes_kept s0 s \<Longrightarrow>
   attributes_kept s0 (snd (connection_execute_update n flds wh vals s))"
  by (simp add: connection_execute_update_def attributes_kept_def
      split: option.splits prod.splits sum.splits)

lemma kept_update_rows:
  "attributes_kept s0 s \<Longrightarrow>
   attributes_kept s0 (snd (update_rows s table row wh subs why should_commit))"
  unfolding update_rows_def Let_def
  by (auto simp: snd_wrap_operational split: sum.splits
      intro!: kept_and_then kept_connection_execute_update kept_connection_commit)

lemma kept_apply_revision:
  "attributes_kept s0 s \<Longrightarrow> attributes_kept s0 (snd (apply_revision s revision))"
  unfolding apply_revision_def
  by (auto intro!: kept_and_then kept_create_table kept_insert_rows)

lemma kept_apply_revisions:
  "attributes_kept s0 s \<Longrightarrow> attributes_kept s0 (snd (apply_revisions rs s))"
proof (induction rs arbitrary: s)
  case Nil
  then show ?case by simp
next
  case (Cons r rs)
  show ?case
    unfolding apply_revisions.simps
    by (rule kept_and_then) (simp_all add: Cons kept_apply_revision)
qed

lemma cursor_close_open: "cursor_close (cursor_open s) = s"
  by (simp add: cursor_close_def cursor_open_def split: option.splits)

lemma snd_query: "snd (query s sql subs why) = s"
  by (simp add: query_def Let_def cursor_close_open split: option.splits)

lemma snd_read_revision: "snd (read_revision s) = s"
proof -
  let ?q = "query s \<lparr>sel_columns = [''number''], sel_table = REVISION, sel_where = None\<rparr>
      None (Some ''get database revision'')"
  obtain r s1 where q: "?q = (r, s1)"
    by (cases ?q)
  have "snd ?q = s" by (rule snd_query)
  with q have "s1 = s" by simp
  with q show ?thesis
    by (simp add: read_revision_def split: sum.splits)
qed

lemma kept_create_directory:
  "attributes_kept s0 s \<Longrightarrow> attributes_kept s0 (snd (create_directory s p))"
  by (simp add: create_directory_def Let_def attributes_kept_def split: sum.splits)


lemma kept_opened:
  assumes "attributes_kept s0 s1"
    and "\<And>c fsys. attributes_kept s0 (snd (body c fsys))"
  shows "attributes_kept s0 (snd
      (case engine_connect (fs s1) (filename s1) of
         Inl e \<Rightarrow> (Inl e, s1)
       | Inr (c, fsys) \<Rightarrow> body c fsys))"
  using assms by (simp split: sum.splits prod.splits)

lemma kept_registered:
  "attributes_kept s0 s1 \<Longrightarrow>
   attributes_kept s0 (add_table_definitions (s1\<lparr>connection := c, fs := fsys\<rparr>))"
  by (simp add: attributes_kept_def add_table_definitions_def add_table_definition_def)

lemma kept_migrate:
  assumes "attributes_kept s0 s3"
  shows "attributes_kept s0 (snd
           (case read_revision s3 of
              (IntV old_revision, s4) \<Rightarrow>
                if old_revision < LATEST_REVISION s4
                then and_then
                       (apply_revisions (migration_steps old_revision (LATEST_REVISION s4)) s4)
                       (\<lambda>_ s5. and_then
                          (update_rows s5 (ByName REVISION)
                             [''number'' \<mapsto> IntV (LATEST_REVISION s5)]
                             Tautology None (Some ''update database revision'') True)
                          (\<lambda>_ s6. (Inr (), s6)))
                else (Inr (), s4)
            | (_, s4) \<Rightarrow> (Inl TypeError, s4)))"
proof -
  obtain v s4 where r: "read_revision s3 = (v, s4)"
    by (cases "read_revision s3")
  have "snd (read_revision s3) = s3" by (rule snd_read_revision)
  with r have s4: "s4 = s3" by simp
  show ?thesis
    using r s4 assms
    by (cases v) (auto intro!: kept_and_then kept_apply_revisions kept_update_rows)
qed

lemma kept_connect: "attributes_kept s0 s \<Longrightarrow> attributes_kept s0 (snd (connect s))"
  unfolding connect_def Let_def
  apply (rule kept_and_then)
   apply (simp add: kept_create_directory)
  apply (rule kept_opened)
   apply assumption
  apply (simp only: split: if_splits)
  apply (intro conjI impI)
   apply (intro kept_and_then kept_create_schemas kept_insert_rows kept_on_fs kept_registered)
        apply assumption+
  apply (rule kept_migrate)
  apply (rule kept_registered)
  apply assumption
  done

subsection \<open>Choosing the snapshot to restore\<close>



lemma snapshot_listing_descending: "sorted (rev (snapshot_listing s))"
  by (simp add: snapshot_listing_def)










subsection \<open>The last-restore index\<close>

lemma kept_copy_then_connect:
  "attributes_kept s0 (snd attempt) \<Longrightarrow>
   attributes_kept s0 (snd (copy_then_connect attempt message))"
proof -
  assume k: "attributes_kept s0 (snd attempt)"
  obtain r s where a: "attempt = (r, s)" by (cases attempt)
  obtain rc s' where c: "connect s = (rc, s')" by (cases "connect s")
  from k a have "attributes_kept s0 (snd (connect s))"
    by (simp add: kept_connect)
  with c have "attributes_kept s0 s'" by simp
  with a c show ?thesis
    by (cases rc) (simp_all add: copy_then_connect_def)
qed

lemma copy_then_connect_raises:
  "fst attempt = Inl x \<Longrightarrow> \<exists>e. fst (copy_then_connect attempt message) = Inl e"
proof -
  assume f: "fst attempt = Inl x"
  obtain r s where a: "attempt = (r, s)" by (cases attempt)
  obtain rc s' where c: "connect s = (rc, s')" by (cases "connect s")
  from f a c show ?thesis
    by (cases rc) (simp_all add: copy_then_connect_def)
qed

lemma restore_from_index:
  "restore_from s n f = (r, s') \<Longrightarrow>
   (case r of Inl e \<Rightarrow> last_restore s' = last_restore s | Inr u \<Rightarrow> last_restore s' = n)"
proof -
  assume rf: "restore_from s n f = (r, s')"
  let ?a = "copy_then_connect
          (on_fs (\<lambda>fsys. copy2 fsys f (filename s)) (disconnect s))
          (copy_failed f (filename s))"
  obtain r1 s1 where a: "?a = (r1, s1)" by (cases ?a)
  have "attributes_kept s (disconnect s)"
    by (simp add: attributes_kept_def disconnect_def)
  then have "attributes_kept s (snd ?a)"
    by (intro kept_copy_then_connect kept_on_fs)
  with a have "last_restore s1 = last_restore s"
    by (simp add: attributes_kept_def)
  with rf a show ?thesis
    by (cases r1) (auto simp: restore_from_def and_then_def)
qed

lemma restore_index:
  "restore s n = (r, s') \<Longrightarrow>
   (case r of Inl e \<Rightarrow> last_restore s' = last_restore s | Inr u \<Rightarrow> last_restore s' = n)"
proof -
  assume rs: "restore s n = (r, s')"
  show ?thesis
  proof (cases "n \<ge> int (length (snapshot_listing s))")
    case True
    with rs show ?thesis by (auto simp: restore_def Let_def)
  next
    case False
    show ?thesis
    proof (cases "py_index (snapshot_listing s) n")
      case (Inl e)
      with rs False show ?thesis by (auto simp: restore_def Let_def)
    next
      case (Inr f)
      with rs False have "restore_from s n f = (r, s')"
        by (simp add: restore_def Let_def)
      then show ?thesis by (rule restore_from_index)
    qed
  qed
qed

text \<open>
  Claim C9.  restore assigns \<open>nth\<close> to the last-restore index as its last step, after
  the copy and the reconnect: whenever restore raises, the index is what it was, so the
  range the prune loop of the next backup runs through is the same; when restore returns,
  the index is \<open>nth\<close>.  In particular a copy that raises makes restore raise and
  leaves the index alone.
\<close>

theorem restore_index_after_copy:
  "(\<forall>e s'. restore s n = (Inl e, s') \<longrightarrow>
       last_restore s' = last_restore s
       \<and> py_range (last_restore s') = py_range (last_restore s))
   \<and> (\<forall>s'. restore s n = (Inr (), s') \<longrightarrow> last_restore s' = n)
   \<and> (\<forall>f x. copy2 (fs (disconnect s)) f (filename s) = Inl x \<longrightarrow>
         (\<exists>e. fst (restore_from s n f) = Inl e)
         \<and> last_restore (snd (restore_from s n f)) = last_restore s)"
proof (intro conjI allI impI)
  fix e s'
  assume "restore s n = (Inl e, s')"
  from restore_index [OF this] show "last_restore s' = last_restore s"
    by simp
  then show "py_range (last_restore s') = py_range (last_restore s)"
    by simp
next
  fix s'
  assume "restore s n = (Inr (), s')"
  from restore_index [OF this] show "last_restore s' = n"
    by simp
next
  fix f x
  assume c: "copy2 (fs (disconnect s)) f (filename s) = Inl x"
  then have "fst (on_fs (\<lambda>fsys. copy2 fsys f (filename s)) (disconnect s)) = Inl x"
    by (simp add: on_fs_def)
  from copy_then_connect_raises [OF this]
  obtain e where e: "fst (copy_then_connect
          (on_fs (\<lambda>fsys. copy2 fsys f (filename s)) (disconnect s))
          (copy_failed f (filename s))) = Inl e"
    by blast
  then have raised: "fst (restore_from s n f) = Inl e"
    by (auto simp: restore_from_def and_then_def split: prod.splits)
  then show "\<exists>e. fst (restore_from s n f) = Inl e"
    by blast
  have "restore_from s n f = (Inl e, snd (restore_from s n f))"
    using raised by (metis prod.collapse)
  from restore_from_index [OF this]
  show "last_restore (snd (restore_from s n f)) = last_restore s"
    by simp
qed

theorem restore_index_after_copy_witness:
  "last_restore (snd (restore store_two 7)) = 0
   \<and> last_restore (snd (restore store_two 1)) = 1
   \<and> copy2 (fs (disconnect store_two)) ''/d/s.9.db'' (filename store_two)
       = Inl (FileNotFoundError ''/d/s.9.db'')
   \<and> last_restore (snd (restore_from store_two 1 ''/d/s.9.db'')) = 0"
proof -
  have a: "restore store_two 7 =
      (Inl (RuntimeError ''restoration index 7 is more than available 2''), store_two)"
    by code_simp
  have "fst (restore store_two 1) = Inr ()"
    by code_simp
  then have b: "restore store_two 1 = (Inr (), snd (restore store_two 1))"
    by (metis prod.collapse)
  have c: "copy2 (fs (disconnect store_two)) ''/d/s.9.db'' (filename store_two)
       = Inl (FileNotFoundError ''/d/s.9.db'')"
    by code_simp
  have z: "last_restore store_two = 0"
    by (simp add: store_two_def init_def)
  show ?thesis
    using restore_index_after_copy [of store_two 7] restore_index_after_copy [of store_two 1]
      a b c z
    by simp
qed

subsection \<open>Pruning in backup\<close>

lemma remove_all_Nil: "remove_all [] fsys = fsys"
  by (simp add: remove_all_def)

lemma remove_then_remove_all:
  "remove_all ps (fsys\<lparr>files := AList.delete p (files fsys)\<rparr>) = remove_all (p # ps) fsys"
proof -
  have "filter (\<lambda>(q, f). q \<notin> set ps) (AList.delete p xs)
          = filter (\<lambda>(q, f). q \<notin> set (p # ps)) xs"
    for xs :: "(string \<times> stored_file) list"
    by (induction xs) auto
  then show ?thesis
    by (simp add: remove_all_def)
qed

lemma isfile_after_delete:
  "p \<noteq> q \<Longrightarrow> isfile (fsys\<lparr>files := AList.delete q (files fsys)\<rparr>) p = isfile fsys p"
  by (simp add: isfile_def delete_conv)

lemma prune_range:
  assumes "distinct L" and "n \<le> length L"
    and "\<forall>p \<in> set (drop i (take n L)). isfile (fs s) p"
  shows "prune L (map int [i..<n]) s = (Inr (), s\<lparr>fs := remove_all (drop i (take n L)) (fs s)\<rparr>)"
  using assms(3)
proof (induction "n - i" arbitrary: i s)
  case 0
  then have "n \<le> i" by simp
  then show ?case by (simp add: remove_all_Nil)
next
  case (Suc k)
  then have lt: "i < n" by simp
  with assms(2) have il: "i < length L" by simp
  have cut: "drop i (take n L) = L ! i # drop (Suc i) (take n L)"
    using lt il by (simp add: Cons_nth_drop_Suc [symmetric])
  have idx: "py_index L (int i) = Inr (L ! i)"
    using il by (simp add: py_index_def)
  have here: "isfile (fs s) (L ! i)"
    using Suc.prems cut by simp
  let ?s1 = "s\<lparr>fs := (fs s)\<lparr>files := AList.delete (L ! i) (files (fs s))\<rparr>\<rparr>"
  have step: "on_fs (\<lambda>fsys. remove fsys (L ! i)) s = (Inr (), ?s1)"
    using here by (simp add: on_fs_def remove_def)
  have "distinct (drop i (take n L))"
    using assms(1) by (simp add: distinct_drop)
  with cut have fresh: "L ! i \<notin> set (drop (Suc i) (take n L))"
    by simp
  have later: "\<forall>p \<in> set (drop (Suc i) (take n L)). isfile (fs ?s1) p"
  proof
    fix p
    assume p: "p \<in> set (drop (Suc i) (take n L))"
    with fresh have "p \<noteq> L ! i" by auto
    moreover from p cut Suc.prems have "isfile (fs s) p" by simp
    ultimately show "isfile (fs ?s1) p"
      by (simp add: isfile_after_delete)
  qed
  have k: "k = n - Suc i" using Suc.hyps(2) by simp
  have "prune L (map int [Suc i..<n]) ?s1
          = (Inr (), ?s1\<lparr>fs := remove_all (drop (Suc i) (take n L)) (fs ?s1)\<rparr>)"
    by (rule Suc.hyps(1) [OF k later])
  then have "prune L (map int [Suc i..<n]) ?s1
          = (Inr (), s\<lparr>fs := remove_all (drop i (take n L)) (fs s)\<rparr>)"
    by (simp add: remove_then_remove_all cut)
  moreover have "[i..<n] = i # [Suc i..<n]"
    using lt by (simp add: upt_conv_Cons)
  ultimately show ?case
    by (simp add: idx step and_then_def)
qed

lemma listing_after_removal:
  assumes "\<forall>p \<in> set ps. p \<notin> set (map fst (dirs (fs s)))"
  shows "snapshot_listing (s\<lparr>fs := remove_all ps (fs s), last_restore := k\<rparr>)
           = filter (\<lambda>p. p \<notin> set ps) (snapshot_listing s)"
proof -
  let ?M = "snapshot_match (backup_directory s) (fst (splitext (basename (filename s))))
              (snd (splitext (basename (filename s))))"
  let ?P = "\<lambda>p. p \<notin> set ps"
  let ?E = "map fst (files (fs s)) @ map fst (dirs (fs s))"
  have keys: "map fst (filter (\<lambda>(p, f). p \<notin> set ps) xs) = filter ?P (map fst xs)"
    for xs :: "(string \<times> stored_file) list"
    by (induction xs) auto
  have stay: "filter ?P (map fst (dirs (fs s))) = map fst (dirs (fs s))"
    using assms by (auto simp: filter_id_conv)
  have "map fst (files (remove_all ps (fs s))) @ map fst (dirs (remove_all ps (fs s)))
          = filter ?P (map fst (files (fs s))) @ filter ?P (map fst (dirs (fs s)))"
    by (simp only: stay) (simp add: remove_all_def keys)
  then have left: "map fst (files (remove_all ps (fs s))) @ map fst (dirs (remove_all ps (fs s)))
          = filter ?P ?E"
    by (simp only: filter_append)
  have "snapshot_listing (s\<lparr>fs := remove_all ps (fs s), last_restore := k\<rparr>)
          = rev (sort (filter ?M (filter ?P ?E)))"
    by (simp add: snapshot_listing_def glob_snapshots_def left del: filter_append)
  also have "filter ?M (filter ?P ?E) = filter ?P (filter ?M ?E)"
    by (simp only: filter_filter conj_commute)
  also have "sort (filter ?P (filter ?M ?E)) = filter ?P (sort (filter ?M ?E))"
    by (rule filter_sort [symmetric])
  also have "rev (filter ?P (sort (filter ?M ?E))) = filter ?P (rev (sort (filter ?M ?E)))"
    by (rule rev_filter)
  finally show ?thesis
    by (simp add: snapshot_listing_def glob_snapshots_def del: filter_append)
qed

lemma listing_distinct:
  "distinct (map fst (files (fs s)) @ map fst (dirs (fs s))) \<Longrightarrow> distinct (snapshot_listing s)"
  unfolding snapshot_listing_def glob_snapshots_def
  by (simp only: distinct_rev distinct_sort distinct_filter)

lemma file_is_no_directory:
  assumes "distinct (map fst (files fsys) @ map fst (dirs fsys))" and "isfile fsys p"
  shows "p \<notin> set (map fst (dirs fsys))"
proof -
  from assms(2) have "p \<in> set (map fst (files fsys))"
    by (simp add: isfile_def map_of_eq_None_iff)
  with assms(1) show ?thesis
    by auto
qed

lemma drop_by_filter:
  "distinct xs \<Longrightarrow> filter (\<lambda>p. p \<notin> set (take k xs)) xs = drop k xs"
proof -
  assume d: "distinct xs"
  let ?P = "\<lambda>p. p \<notin> set (take k xs)"
  have "distinct (take k xs @ drop k xs)" using d by simp
  then have disj: "set (take k xs) \<inter> set (drop k xs) = {}"
    by (simp only: distinct_append)
  have a: "filter ?P (take k xs) = []"
    by (simp add: filter_empty_conv)
  have b: "filter ?P (drop k xs) = drop k xs"
    using disj by (auto simp: filter_id_conv)
  have "filter ?P xs = filter ?P (take k xs @ drop k xs)"
    by simp
  also have "\<dots> = filter ?P (take k xs) @ filter ?P (drop k xs)"
    by (rule filter_append)
  finally show ?thesis
    using a b by simp
qed

lemma newer_than_kept:
  fixes xs :: "string list"
  assumes "sorted (rev xs)" and "distinct xs"
    and "a \<in> set (take k xs)" and "b \<in> set (drop k xs)"
  shows "b < a"
proof -
  have "sorted_wrt (\<lambda>x y. y \<le> x) xs"
    using assms(1) by (simp only: sorted_wrt_rev)
  then have "sorted_wrt (\<lambda>x y. y \<le> x) (take k xs @ drop k xs)"
    by simp
  with assms(3,4) have "b \<le> a"
    by (simp only: sorted_wrt_append)
  moreover have "distinct (take k xs @ drop k xs)"
    using assms(2) by simp
  then have "set (take k xs) \<inter> set (drop k xs) = {}"
    by (simp only: distinct_append)
  with assms(3,4) have "a \<noteq> b"
    by blast
  ultimately show ?thesis by simp
qed

text \<open>
  Claim C1, as amended.  With \<open>K\<close> the last-restore index, at least \<open>K\<close> snapshots
  listed and the first \<open>K\<close> entries of the newest-first listing regular files, backup
  removes these \<open>K\<close> entries, which are the \<open>K\<close> newest snapshots (each removed name
  is greater than each name that stays), sets the index to 0 and then takes the new
  snapshot; the listing that is left is the old one without its first \<open>K\<close> entries.
  The file system is one in which a path names at most one entry.  (The listing can hold
  a directory; \<^verbatim>\<open>os.remove\<close> raises on it, see \<open>backup_stops_at_directory\<close> below.)
\<close>

theorem backup_prunes_newest:
  assumes "distinct (map fst (files (fs s)) @ map fst (dirs (fs s)))"
    and "last_restore s \<le> int (length (snapshot_listing s))"
    and "\<forall>p \<in> set (take (nat (last_restore s)) (snapshot_listing s)). isfile (fs s) p"
  shows "backup s =
           backup_to
             (s\<lparr>fs := remove_all (take (nat (last_restore s)) (snapshot_listing s)) (fs s),
                last_restore := 0\<rparr>)
             (snapshot_name s)
         \<and> snapshot_listing
             (s\<lparr>fs := remove_all (take (nat (last_restore s)) (snapshot_listing s)) (fs s),
                last_restore := 0\<rparr>)
           = drop (nat (last_restore s)) (snapshot_listing s)
         \<and> (\<forall>a \<in> set (take (nat (last_restore s)) (snapshot_listing s)).
             \<forall>b \<in> set (drop (nat (last_restore s)) (snapshot_listing s)). b < a)"
proof (intro conjI ballI)
  let ?L = "snapshot_listing s"
  let ?k = "nat (last_restore s)"
  have d: "distinct ?L" using assms(1) by (rule listing_distinct)
  have le: "?k \<le> length ?L" using assms(2) by simp
  have regular: "\<forall>p \<in> set (drop 0 (take ?k ?L)). isfile (fs s) p"
    using assms(3) by simp
  have apart: "\<forall>p \<in> set (take ?k ?L). p \<notin> set (map fst (dirs (fs s)))"
  proof
    fix p
    assume "p \<in> set (take ?k ?L)"
    with assms(3) have "isfile (fs s) p"
      by simp
    with assms(1) show "p \<notin> set (map fst (dirs (fs s)))"
      by (rule file_is_no_directory)
  qed
  from prune_range [OF d le regular]
  have "prune ?L (py_range (last_restore s)) s = (Inr (), s\<lparr>fs := remove_all (take ?k ?L) (fs s)\<rparr>)"
    by (simp add: py_range_def)
  then show "backup s =
           backup_to (s\<lparr>fs := remove_all (take ?k ?L) (fs s), last_restore := 0\<rparr>)
             (snapshot_name s)"
    by (simp add: backup_def and_then_def snapshot_name_def)
  show "snapshot_listing (s\<lparr>fs := remove_all (take ?k ?L) (fs s), last_restore := 0\<rparr>)
           = drop ?k ?L"
    by (simp only: listing_after_removal [OF apart] drop_by_filter [OF d])
  fix a b
  assume "a \<in> set (take ?k ?L)" and "b \<in> set (drop ?k ?L)"
  then show "b < a"
    by (rule newer_than_kept [OF snapshot_listing_descending d])
qed

lemma store_rewound_listing: "snapshot_listing store_rewound = [''/d/s.2.db'', ''/d/s.1.db'']"
  by code_simp

theorem backup_prunes_newest_witness:
  "backup store_rewound =
     backup_to (store_rewound\<lparr>fs := remove_all [''/d/s.2.db''] (fs store_rewound),
                  last_restore := 0\<rparr>) ''/d/s.3.db''
   \<and> snapshot_listing (store_rewound\<lparr>fs := remove_all [''/d/s.2.db''] (fs store_rewound),
                  last_restore := 0\<rparr>) = [''/d/s.1.db'']
   \<and> ''/d/s.1.db'' < ''/d/s.2.db''"
proof -
  have d: "distinct (map fst (files (fs store_rewound)) @ map fst (dirs (fs store_rewound)))"
    by code_simp
  have k: "last_restore store_rewound = 1"
    by (simp add: store_rewound_def)
  have n: "snapshot_name store_rewound = ''/d/s.3.db''"
    by code_simp
  have le: "last_restore store_rewound \<le> int (length (snapshot_listing store_rewound))"
    by (simp add: k store_rewound_listing)
  have newest: "isfile (fs store_rewound) ''/d/s.2.db''"
    by code_simp
  have regular: "\<forall>p \<in> set (take (nat (last_restore store_rewound))
                              (snapshot_listing store_rewound)). isfile (fs store_rewound) p"
    using newest by (simp add: k store_rewound_listing)
  show ?thesis
    using backup_prunes_newest [OF d le regular]
    by (simp add: k n store_rewound_listing)
qed

text \<open>
  Claim C1 as stated fails: with two snapshots and a last-restore index of 1, the entry at
  the end of the newest-first listing, the oldest snapshot, is still there after backup,
  and the newest one is gone.
\<close>

theorem backup_prunes_oldest_counterexample:
  "snapshot_listing store_rewound = [''/d/s.2.db'', ''/d/s.1.db'']
   \<and> last_restore store_rewound = 1
   \<and> fst (backup store_rewound) = Inr ()
   \<and> isfile (fs (snd (backup store_rewound))) (last (snapshot_listing store_rewound))
   \<and> \<not> isfile (fs (snd (backup store_rewound))) ''/d/s.2.db''
   \<and> snapshot_listing (snd (backup store_rewound)) = [''/d/s.3.db'', ''/d/s.1.db'']"
  by code_simp

text \<open>
  When the newest listed entry is a directory and the last-restore index is 1, the
  pruning loop raises on it: backup ends there, nothing is removed, the index keeps its
  value and no snapshot is taken.
\<close>

lemma backup_stops_at_directory:
  "snapshot_listing store_nested = [''/d/s.2.db'', ''/d/s.1.db'']
   \<and> isdir (fs store_nested) ''/d/s.2.db''
   \<and> last_restore store_nested = 1
   \<and> backup store_nested = (Inl (IsADirectoryError ''/d/s.2.db''), store_nested)"
proof -
  have l: "snapshot_listing store_nested = [''/d/s.2.db'', ''/d/s.1.db'']"
    by code_simp
  have k: "last_restore store_nested = 1"
    by (simp add: store_nested_def)
  have dir: "isdir (fs store_nested) ''/d/s.2.db''"
    by code_simp
  have nofile: "\<not> isfile (fs store_nested) ''/d/s.2.db''"
    by code_simp
  have "prune (snapshot_listing store_nested) (py_range (last_restore store_nested)) store_nested
          = (Inl (IsADirectoryError ''/d/s.2.db''), store_nested)"
    using dir nofile
    by (simp add: l k py_range_def py_index_def on_fs_def remove_def and_then_def)
  then have "backup store_nested = (Inl (IsADirectoryError ''/d/s.2.db''), store_nested)"
    by (simp add: backup_def and_then_def)
  with l k dir show ?thesis
    by simp
qed

subsection \<open>Reconnecting after a failed copy\<close>

lemma live_and_then:
  assumes "is_connected (snd r)"
    and "\<And>x s'. is_connected s' \<Longrightarrow> is_connected (snd (f x s'))"
  shows "is_connected (snd (and_then r f))"
proof (cases r)
  case (Pair o1 s1)
  with assms show ?thesis
    by (cases o1) (simp_all add: and_then_def)
qed

lemma live_connection_commit:
  "is_connected s \<Longrightarrow> is_connected (snd (connection_commit s))"
  by (simp add: is_connected_def connection_commit_def split: option.splits)

lemma live_connection_execute:
  "is_connected s \<Longrightarrow> is_connected (snd (connection_execute stmt s))"
  by (simp add: is_connected_def connection_execute_def split: option.splits sum.splits)

lemma live_on_fs: "is_connected s \<Longrightarrow> is_connected (snd (on_fs f s))"
  by (simp add: is_connected_def on_fs_def split: sum.splits)

lemma live_create_indices:
  "is_connected s \<Longrightarrow> is_connected (snd (create_indices td fs' s))"
proof (induction fs' arbitrary: s)
  case Nil
  then show ?case by simp
next
  case (Cons f fs')
  show ?case
    unfolding create_indices.simps
    by (rule live_and_then) (simp_all add: Cons live_connection_execute)
qed

lemma live_create_table:
  "is_connected s \<Longrightarrow> is_connected (snd (create_table s table should_commit))"
  unfolding create_table_def
  by (auto split: sum.splits
      intro!: live_and_then live_connection_execute live_create_indices
        live_connection_commit)

lemma live_create_tables:
  "is_connected s \<Longrightarrow> is_connected (snd (create_tables tds s))"
proof (induction tds arbitrary: s)
  case Nil
  then show ?case by simp
next
  case (Cons td tds)
  show ?case
    unfolding create_tables.simps
    by (rule live_and_then) (simp_all add: Cons live_create_table)
qed

lemma live_create_schemas:
  "is_connected s \<Longrightarrow> is_connected (snd (create_schemas s should_commit))"
  unfolding create_schemas_def
  by (auto intro!: live_and_then live_create_tables live_connection_commit)

lemma live_connection_executemany:
  "is_connected s \<Longrightarrow> is_connected (snd (connection_executemany n flds vs s))"
  by (simp add: is_connected_def connection_executemany_def split: option.splits prod.splits)

lemma live_insert_rows:
  "is_connected s \<Longrightarrow>
   is_connected (snd (insert_rows s table rws why should_commit))"
  unfolding insert_rows_def Let_def
  by (auto simp: snd_wrap_operational split: sum.splits
      intro!: live_and_then live_connection_executemany live_connection_commit)

lemma live_connection_execute_update:
  "is_connected s \<Longrightarrow>
   is_connected (snd (connection_execute_update n flds wh vals s))"
  by (simp add: is_connected_def connection_execute_update_def split: option.splits prod.splits sum.splits)

lemma live_update_rows:
  "is_connected s \<Longrightarrow>
   is_connected (snd (update_rows s table row wh subs why should_commit))"
  unfolding update_rows_def Let_def
  by (auto simp: snd_wrap_operational split: sum.splits
      intro!: live_and_then live_connection_execute_update live_connection_commit)

lemma live_apply_revision:
  "is_connected s \<Longrightarrow> is_connected (snd (apply_revision s revision))"
  unfolding apply_revision_def
  by (auto intro!: live_and_then live_create_table live_insert_rows)

lemma live_apply_revisions:
  "is_connected s \<Longrightarrow> is_connected (snd (apply_revisions rs s))"
proof (induction rs arbitrary: s)
  case Nil
  then show ?case by simp
next
  case (Cons r rs)
  show ?case
    unfolding apply_revisions.simps
    by (rule live_and_then) (simp_all add: Cons live_apply_revision)
qed

lemma live_migrate:
  assumes "is_connected s3"
  shows "is_connected (snd
           (case read_revision s3 of
              (IntV old_revision, s4) \<Rightarrow>
                if old_revision < LATEST_REVISION s4
                then and_then
                       (apply_revisions (migration_steps old_revision (LATEST_REVISION s4)) s4)
                       (\<lambda>_ s5. and_then
                          (update_rows s5 (ByName REVISION)
                             [''number'' \<mapsto> IntV (LATEST_REVISION s5)]
                             Tautology None (Some ''update database revision'') True)
                          (\<lambda>_ s6. (Inr (), s6)))
                else (Inr (), s4)
            | (_, s4) \<Rightarrow> (Inl TypeError, s4)))"
proof -
  obtain v s4 where r: "read_revision s3 = (v, s4)"
    by (cases "read_revision s3")
  have "snd (read_revision s3) = s3" by (rule snd_read_revision)
  with r have s4: "s4 = s3" by simp
  show ?thesis
    using r s4 assms
    by (cases v) (auto intro!: live_and_then live_apply_revisions live_update_rows)
qed

lemma live_registered:
  "is_connected (add_table_definitions (s1\<lparr>connection := Some c, fs := fsys\<rparr>))"
  by (simp add: is_connected_def add_table_definitions_def add_table_definition_def)

lemma and_then_returns:
  "and_then r f = (Inr y, s') \<Longrightarrow> \<exists>x s1. r = (Inr x, s1) \<and> f x s1 = (Inr y, s')"
  by (cases r; cases "fst r") (auto simp: and_then_def)

lemma connect_returns_live:
  assumes "connect s = (Inr u, s')"
  shows "connection s' \<noteq> None"
proof -
  from assms [unfolded connect_def Let_def]
  obtain x s1 where
    opened: "(case engine_connect (fs s1) (filename s1) of
                Inl e \<Rightarrow> (Inl e, s1)
              | Inr (c, fsys) \<Rightarrow>
                  if \<not> isfile (fs s) (filename s)
                  then and_then
                         (create_schemas
                            (add_table_definitions
                               (s1\<lparr>connection :=
                                     Some (c\<lparr>sql_functions :=
                                              AList.update ''regexp'' 2 (sql_functions c)\<rparr>),
                                   fs := fsys\<rparr>)) True)
                         (\<lambda>_ s4. and_then
                            (insert_rows s4 (ByName REVISION)
                               [[''number'' \<mapsto> IntV (LATEST_REVISION s4)]] None True)
                            (\<lambda>_ s5. on_fs (\<lambda>fsys. chmod fsys (filename s5) 438) s5))
                  else (case read_revision
                               (add_table_definitions
                                  (s1\<lparr>connection :=
                                        Some (c\<lparr>sql_functions :=
                                                 AList.update ''regexp'' 2 (sql_functions c)\<rparr>),
                                      fs := fsys\<rparr>)) of
                          (IntV old_revision, s4) \<Rightarrow>
                            if old_revision < LATEST_REVISION s4
                            then and_then
                                   (apply_revisions
                                      (migration_steps old_revision (LATEST_REVISION s4)) s4)
                                   (\<lambda>_ s5. and_then
                                      (update_rows s5 (ByName REVISION)
                                         [''number'' \<mapsto> IntV (LATEST_REVISION s5)]
                                         Tautology None
                                         (Some ''update database revision'') True)
                                      (\<lambda>_ s6. (Inr (), s6)))
                            else (Inr (), s4)
                        | (_, s4) \<Rightarrow> (Inl TypeError, s4))) = (Inr u, s')"
    by (blast dest: and_then_returns)
  show ?thesis
  proof (cases "engine_connect (fs s1) (filename s1)")
    case (Inl e)
    with opened show ?thesis by simp
  next
    case (Inr cf)
    obtain c fsys where cf: "cf = (c, fsys)" by (cases cf)
    let ?s3 = "add_table_definitions
                 (s1\<lparr>connection :=
                       Some (c\<lparr>sql_functions := AList.update ''regexp'' 2 (sql_functions c)\<rparr>),
                     fs := fsys\<rparr>)"
    have live3: "is_connected ?s3" by (rule live_registered)
    show ?thesis
    proof (cases "\<not> isfile (fs s) (filename s)")
      case True
      have "is_connected (snd (and_then (create_schemas ?s3 True)
                         (\<lambda>_ s4. and_then
                            (insert_rows s4 (ByName REVISION)
                               [[''number'' \<mapsto> IntV (LATEST_REVISION s4)]] None True)
                            (\<lambda>_ s5. on_fs (\<lambda>fsys. chmod fsys (filename s5) 438) s5))))"
        by (intro live_and_then live_create_schemas live_insert_rows live_on_fs live3)
      with opened Inr cf True show ?thesis by (simp add: is_connected_def)
    next
      case False
      from live_migrate [OF live3] opened Inr cf False show ?thesis
        by (simp add: is_connected_def)
    qed
  qed
qed

lemma copy_then_connect_raised:
  "fst attempt = Inl x \<Longrightarrow>
   copy_then_connect attempt message =
     (case connect (snd attempt) of
        (Inl e, s') \<Rightarrow> (Inl e, s')
      | (Inr u, s') \<Rightarrow> (Inl (RuntimeError message), s'))"
  by (cases attempt) (simp add: copy_then_connect_def split: prod.splits sum.splits)

text \<open>
  Claim C5, as amended.  In backup and in restore, when the copy step raises, connect
  is run before the method ends.  When that connect returns, the connection is live and
  the method raises a RuntimeError whose message names the source and the destination of
  the copy; when that connect itself raises, its exception is the one the method raises.
\<close>

theorem copy_failure_then_reconnect:
  "(fst (and_then (create_directory (disconnect s) t)
            (\<lambda>_. on_fs (\<lambda>fsys. copy2 fsys (filename s) t))) = Inl x \<longrightarrow>
      backup_to s t =
        (case connect (snd (and_then (create_directory (disconnect s) t)
                              (\<lambda>_. on_fs (\<lambda>fsys. copy2 fsys (filename s) t)))) of
           (Inl e, s') \<Rightarrow> (Inl e, s')
         | (Inr u, s') \<Rightarrow>
             (Inl (RuntimeError (''copy '' @ filename s @ '' to '' @ t @ '' failed'')), s')))
   \<and> (copy2 (fs (disconnect s)) f (filename s) = Inl x \<longrightarrow>
        restore_from s n f =
          (case connect (disconnect s) of
             (Inl e, s') \<Rightarrow> (Inl e, s')
           | (Inr u, s') \<Rightarrow>
               (Inl (RuntimeError (''copy '' @ f @ '' to '' @ filename s @ '' failed'')), s')))
   \<and> (\<forall>u s'. connect s0 = (Inr u, s') \<longrightarrow> connection s' \<noteq> None)"
proof (intro conjI impI allI)
  assume "fst (and_then (create_directory (disconnect s) t)
            (\<lambda>_. on_fs (\<lambda>fsys. copy2 fsys (filename s) t))) = Inl x"
  then show "backup_to s t =
        (case connect (snd (and_then (create_directory (disconnect s) t)
                              (\<lambda>_. on_fs (\<lambda>fsys. copy2 fsys (filename s) t)))) of
           (Inl e, s') \<Rightarrow> (Inl e, s')
         | (Inr u, s') \<Rightarrow>
             (Inl (RuntimeError (''copy '' @ filename s @ '' to '' @ t @ '' failed'')), s'))"
    unfolding backup_to_def copy_failed_def by (rule copy_then_connect_raised)
next
  assume c: "copy2 (fs (disconnect s)) f (filename s) = Inl x"
  let ?a = "on_fs (\<lambda>fsys. copy2 fsys f (filename s)) (disconnect s)"
  from c have a: "?a = (Inl x, disconnect s)"
    by (simp add: on_fs_def)
  then have "copy_then_connect ?a (copy_failed f (filename s)) =
      (case connect (disconnect s) of
         (Inl e, s') \<Rightarrow> (Inl e, s')
       | (Inr u, s') \<Rightarrow> (Inl (RuntimeError (copy_failed f (filename s))), s'))"
    using copy_then_connect_raised [of ?a x "copy_failed f (filename s)"] by simp
  then show "restore_from s n f =
          (case connect (disconnect s) of
             (Inl e, s') \<Rightarrow> (Inl e, s')
           | (Inr u, s') \<Rightarrow>
               (Inl (RuntimeError (''copy '' @ f @ '' to '' @ filename s @ '' failed'')), s'))"
    by (simp add: restore_from_def and_then_def copy_failed_def split: prod.splits sum.splits)
next
  fix u s'
  assume "connect s0 = (Inr u, s')"
  then show "connection s' \<noteq> None"
    by (rule connect_returns_live)
qed

theorem copy_failure_then_reconnect_witness:
  "fst (backup_to store_two ''/d/s.db/x'')
     = Inl (RuntimeError ''copy /d/s.db to /d/s.db/x failed'')
   \<and> fst (restore_from store_two 0 ''/d/s.9.db'')
     = Inl (RuntimeError ''copy /d/s.9.db to /d/s.db failed'')
   \<and> connection (snd (connect store_two)) \<noteq> None"
proof -
  have a: "fst (and_then (create_directory (disconnect store_two) ''/d/s.db/x'')
            (\<lambda>_. on_fs (\<lambda>fsys. copy2 fsys (filename store_two) ''/d/s.db/x'')))
          = Inl (NotADirectoryError ''/d/s.db/x'')"
    by code_simp
  have a': "fst (connect (snd (and_then (create_directory (disconnect store_two) ''/d/s.db/x'')
            (\<lambda>_. on_fs (\<lambda>fsys. copy2 fsys (filename store_two) ''/d/s.db/x''))))) = Inr ()"
    by code_simp
  have b: "copy2 (fs (disconnect store_two)) ''/d/s.9.db'' (filename store_two)
          = Inl (FileNotFoundError ''/d/s.9.db'')"
    by code_simp
  have b': "fst (connect (disconnect store_two)) = Inr ()"
    by code_simp
  have c: "fst (connect store_two) = Inr ()"
    by code_simp
  then have c': "connect store_two = (Inr (), snd (connect store_two))"
    by (metis prod.collapse)
  have f: "filename store_two = ''/d/s.db''"
    by (simp add: store_two_def init_def)
  show ?thesis
    using copy_failure_then_reconnect
      [of store_two "''/d/s.db/x''" "NotADirectoryError ''/d/s.db/x''" "''/d/s.9.db''"
        0 store_two]
      copy_failure_then_reconnect
      [of store_two "''/d/s.db/x''" "FileNotFoundError ''/d/s.9.db''" "''/d/s.9.db''"
        0 store_two]
      a a' b b' c'
    by (auto simp: f split: prod.splits sum.splits)
qed

text \<open>
  Claim C5 as stated fails: the live path lies under a regular file, so the copy raises
  and the reconnect in the \<^verbatim>\<open>finally\<close> clause raises too.  restore and backup then
  end with the engine's OperationalError, not a RuntimeError, and with no connection.
\<close>

theorem copy_failure_reconnect_counterexample:
  "snapshot_listing store_blocked = [''/b/s.1.db'']
   \<and> copy2 (fs (disconnect store_blocked)) ''/b/s.1.db'' (filename store_blocked)
       = Inl (NotADirectoryError ''/f/s.db'')
   \<and> fst (restore store_blocked 0) = Inl (OperationalError ''unable to open database file'')
   \<and> connection (snd (restore store_blocked 0)) = None
   \<and> fst (backup store_blocked) = Inl (OperationalError ''unable to open database file'')
   \<and> connection (snd (backup store_blocked)) = None"
  by code_simp

text \<open>
  A reconnect that raises can also leave the connection open: here the copy of backup
  raises, the engine then opens the live file, and connect raises on the missing revision
  number, after the connection was made.
\<close>

lemma reconnect_raises_connected:
  "snapshot_name store_unnumbered = ''/d/s.db/s.3.db''
   \<and> fst (and_then (create_directory (disconnect store_unnumbered) ''/d/s.db/s.3.db'')
            (\<lambda>_. on_fs (\<lambda>fsys. copy2 fsys (filename store_unnumbered) ''/d/s.db/s.3.db'')))
       = Inl (NotADirectoryError ''/d/s.db/s.3.db'')
   \<and> fst (backup store_unnumbered) = Inl TypeError
   \<and> is_connected (snd (backup store_unnumbered))"
  by code_simp

subsection \<open>query\<close>

lemma update_keys:
  "map fst (AList.update k v al) = (if k \<in> fst ` set al then map fst al else map fst al @ [k])"
  by (induction al) auto

lemma update_fresh: "k \<notin> fst ` set al \<Longrightarrow> AList.update k v al = al @ [(k, v)]"
  by (induction al) auto

lemma make_record_snoc:
  "length row = length cols \<Longrightarrow>
   make_record (cols @ [k]) (row @ [v]) = AList.update k v (make_record cols row)"
  by (simp add: make_record_def)

lemma make_record_keys:
  "length row = length cols \<Longrightarrow> map fst (make_record cols row) = rev (remdups (rev cols))"
proof (induction cols arbitrary: row rule: rev_induct)
  case Nil
  then show ?case by (simp add: make_record_def)
next
  case (snoc k cols)
  then obtain rs v where row: "row = rs @ [v]" and len: "length rs = length cols"
    by (cases row rule: rev_cases) auto
  have keys: "map fst (make_record cols rs) = rev (remdups (rev cols))"
    using snoc.IH len by simp
  then have "fst ` set (make_record cols rs) = set cols"
    by (metis list.set_map set_remdups set_rev)
  then show ?case
    using keys len by (simp add: row make_record_snoc update_keys)
qed

lemma make_record_distinct:
  "length row = length cols \<Longrightarrow> distinct cols \<Longrightarrow> make_record cols row = zip cols row"
proof (induction cols arbitrary: row rule: rev_induct)
  case Nil
  then show ?case by (simp add: make_record_def)
next
  case (snoc k cols)
  then obtain rs v where row: "row = rs @ [v]" and len: "length rs = length cols"
    by (cases row rule: rev_cases) auto
  have "make_record cols rs = zip cols rs"
    using snoc len by simp
  moreover have "k \<notin> fst ` set (zip cols rs)"
    using snoc.prems(2) by (auto dest: set_zip_leftD)
  then have "AList.update k v (zip cols rs) = zip cols rs @ [(k, v)]"
    by (rule update_fresh)
  ultimately show ?case
    using len by (simp add: row make_record_snoc)
qed

lemma engine_select_shape:
  assumes "engine_select db q subs = Inr (cols, rws)"
  shows "cols = sel_columns q \<and> (\<forall>r \<in> set rws. length r = length cols)"
  using assms
  by (auto simp: engine_select_def split: if_splits option.splits list.splits)

text \<open>
  Claim C8, as amended.  On a live connection, query returns, when the engine executes
  the statement, one record per fetched row, in order; the keys of each record are the
  statement's column labels in their order (a repeated label keeps its first place), and
  with distinct labels the record is the labels paired with the row's values.  When the
  engine call raises OperationalError, the one class the \<^verbatim>\<open>except\<close> clause names,
  query raises a RuntimeError whose message is the activity followed by the engine's own
  error text; an exception of any other class goes through as it is, not wrapped.  On
  every path the cursor that was opened is closed again: the state after the call is the
  state before it.  With no connection the call raises before a cursor exists.
\<close>

theorem query_outcomes:
  "(case connection s of
      None \<Rightarrow> query s q subs why = (Inl AttributeError, s)
    | Some c \<Rightarrow>
        (case engine_select (current c) q (case subs of None \<Rightarrow> [] | Some xs \<Rightarrow> xs) of
           Inr (cols, rws) \<Rightarrow>
             fst (query s q subs why) = Inr (map (make_record cols) rws)
             \<and> cols = sel_columns q
             \<and> (\<forall>r \<in> set rws.
                   map fst (make_record cols r) = rev (remdups (rev cols))
                   \<and> (distinct cols \<longrightarrow> make_record cols r = zip cols r))
         | Inl e \<Rightarrow>
             fst (query s q subs why) =
               (if is_operational e
                then Inl (RuntimeError
                       ((case why of
                           None \<Rightarrow> ''executing '' @ select_sql q
                         | Some w \<Rightarrow> ''executing '' @ w @ '': '' @ select_sql q)
                        @ '': '' @ exn_text e))
                else Inl e))
        \<and> open_cursors (the (connection (cursor_open s))) = open_cursors c + 1
        \<and> snd (query s q subs why) = cursor_close (cursor_open s)
        \<and> cursor_close (cursor_open s) = s)"
proof (cases "connection s")
  case None
  then show ?thesis by (simp add: query_def)
next
  case (Some c)
  let ?bound = "case subs of None \<Rightarrow> [] | Some xs \<Rightarrow> xs"
  have cur: "open_cursors (the (connection (cursor_open s))) = open_cursors c + 1
        \<and> snd (query s q subs why) = cursor_close (cursor_open s)
        \<and> cursor_close (cursor_open s) = s"
    using Some by (simp add: query_def Let_def cursor_open_def cursor_close_def)
  show ?thesis
  proof (cases "engine_select (current c) q ?bound")
    case (Inl e)
    with Some cur show ?thesis
      by (simp add: query_def Let_def explain_def)
  next
    case (Inr res)
    obtain cols rws where res: "res = (cols, rws)" by (cases res)
    from engine_select_shape [OF Inr [unfolded res]]
    have shape: "cols = sel_columns q" "\<forall>r \<in> set rws. length r = length cols"
      by simp_all
    have "\<forall>r \<in> set rws.
            map fst (make_record cols r) = rev (remdups (rev cols))
            \<and> (distinct cols \<longrightarrow> make_record cols r = zip cols r)"
      using shape(2) by (simp add: make_record_keys make_record_distinct)
    with Some cur Inr res shape(1) show ?thesis
      by (simp add: query_def Let_def)
  qed
qed

theorem query_outcomes_witness:
  "fst (query store_open
          \<lparr>sel_columns = [''number'', ''created_on''], sel_table = ''revision'',
           sel_where = None\<rparr> None None)
     = Inr [[(''number'', IntV 1), (''created_on'', TextV ''2024-01-01 09:00:00.000000'')]]
   \<and> fst (query store_open
          \<lparr>sel_columns = [''nope''], sel_table = ''revision'', sel_where = None\<rparr>
          None (Some ''a test''))
     = Inl (RuntimeError
         ''executing a test: SELECT nope FROM revision: OperationalError: no such column: nope'')
   \<and> fst (query store_open
          \<lparr>sel_columns = [''number''], sel_table = ''revision'', sel_where = None\<rparr>
          (Some [IntV 1]) None)
     = Inl (ProgrammingError ''Incorrect number of bindings supplied'')
   \<and> snd (query store_open
          \<lparr>sel_columns = [''nope''], sel_table = ''revision'', sel_where = None\<rparr>
          None (Some ''a test'')) = store_open"
proof -
  let ?c = "\<lparr>current = current_database, in_transaction = False, open_cursors = 0,
             sql_functions = [(''regexp'', 2)]\<rparr>"
  have c: "connection store_open = Some ?c"
    by code_simp
  have cd: "current_database =
     [(''revision'',
       \<lparr>columns = [''created_on'', ''number''], indices = [''revision_created_on''],
        rows = [[TextV ''2024-01-01 09:00:00.000000'', IntV 1]]\<rparr>)]"
    by (simp add: current_database_def)
  have a: "engine_select current_database
          \<lparr>sel_columns = [''number'', ''created_on''], sel_table = ''revision'',
           sel_where = None\<rparr> []
        = Inr ([''number'', ''created_on''],
               [[IntV 1, TextV ''2024-01-01 09:00:00.000000'']])"
    by code_simp
  have b: "engine_select current_database
          \<lparr>sel_columns = [''nope''], sel_table = ''revision'', sel_where = None\<rparr> []
        = Inl (OperationalError ''no such column: nope'')"
    by code_simp
  have d: "engine_select current_database
          \<lparr>sel_columns = [''number''], sel_table = ''revision'', sel_where = None\<rparr> [IntV 1]
        = Inl (ProgrammingError ''Incorrect number of bindings supplied'')"
    by code_simp
  have m: "make_record [''number'', ''created_on'']
             [IntV 1, TextV ''2024-01-01 09:00:00.000000'']
           = [(''number'', IntV 1), (''created_on'', TextV ''2024-01-01 09:00:00.000000'')]"
    by code_simp
  have t: "select_sql \<lparr>sel_columns = [''nope''], sel_table = ''revision'', sel_where = None\<rparr>
           = ''SELECT nope FROM revision''"
    by code_simp
  show ?thesis
    using query_outcomes [of store_open
        "\<lparr>sel_columns = [''number'', ''created_on''], sel_table = ''revision'',
           sel_where = None\<rparr>" None None]
      query_outcomes [of store_open
        "\<lparr>sel_columns = [''nope''], sel_table = ''revision'', sel_where = None\<rparr>"
        None "Some ''a test''"]
      query_outcomes [of store_open
        "\<lparr>sel_columns = [''number''], sel_table = ''revision'', sel_where = None\<rparr>"
        "Some [IntV 1]" None]
    by (simp add: c a b d m t)
qed

text \<open>
  Claim C8 as stated fails: not every error of the engine call is wrapped.  A statement
  without placeholders that is run with one bound value makes the engine call raise
  ProgrammingError, which is not an OperationalError; query raises it as it is, and
  neither a RuntimeError nor the activity text reaches the caller.  The cursor is closed
  all the same.
\<close>

theorem query_unwrapped_error_counterexample:
  "connection store_open \<noteq> None
   \<and> engine_select (current (the (connection store_open)))
        \<lparr>sel_columns = [''number''], sel_table = ''revision'', sel_where = None\<rparr> [IntV 1]
       = Inl (ProgrammingError ''Incorrect number of bindings supplied'')
   \<and> \<not> is_operational (ProgrammingError ''Incorrect number of bindings supplied'')
   \<and> fst (query store_open
            \<lparr>sel_columns = [''number''], sel_table = ''revision'', sel_where = None\<rparr>
            (Some [IntV 1]) (Some ''reading the revision''))
       = Inl (ProgrammingError ''Incorrect number of bindings supplied'')
   \<and> open_cursors (the (connection (snd (query store_open
            \<lparr>sel_columns = [''number''], sel_table = ''revision'', sel_where = None\<rparr>
            (Some [IntV 1]) (Some ''reading the revision''))))) = 0"
  by code_simp

subsection \<open>insert\<close>

lemma values_row_aligned:
  "values_row td clock r =
     map (\<lambda>f. case r f of Some v \<Rightarrow> v | None \<Rightarrow> TextV clock) (insertable_fields td r)"
proof -
  have "concat (map (\<lambda>f. case r f of
                         Some v \<Rightarrow> [v]
                       | None \<Rightarrow> if f = CREATED_ON then [TextV clock] else []) fs')
        = map (\<lambda>f. case r f of Some v \<Rightarrow> v | None \<Rightarrow> TextV clock)
            (filter (\<lambda>f. r f \<noteq> None \<or> f = CREATED_ON) fs')"
    for fs' :: "string list"
    by (induction fs') (auto split: option.splits)
  from this [of "map fst (table_fields td)"] show ?thesis
    by (simp only: values_row_def insertable_fields_def)
qed

lemma agree_pointwise:
  "agree_on_schema td r r' \<Longrightarrow> f \<in> set (map fst (table_fields td)) \<Longrightarrow> r f = r' f"
  by (simp only: agree_on_schema_def list_all_iff)

lemma agree_insertable:
  "agree_on_schema td r r' \<Longrightarrow> insertable_fields td r = insertable_fields td r'"
  unfolding insertable_fields_def
  by (rule filter_cong [OF refl]) (simp only: agree_pointwise)

lemma agree_values:
  "agree_on_schema td r r' \<Longrightarrow> values_row td clock r = values_row td clock r'"
  unfolding values_row_def
  by (rule arg_cong [where f = concat], rule map_cong [OF refl])
    (simp only: agree_pointwise)

lemma agree_rows:
  assumes "list_all2 (agree_on_schema td) rws rws'"
  shows "insert_rows s (ByDefinition td) rws why should_commit
           = insert_rows s (ByDefinition td) rws' why should_commit"
proof (cases rws)
  case Nil
  with assms show ?thesis by simp
next
  case (Cons r rest)
  with assms obtain r' rest' where c': "rws' = r' # rest'"
    and h: "agree_on_schema td r r'" and t: "list_all2 (agree_on_schema td) rest rest'"
    by (auto simp: list_all2_Cons1)
  have "map (values_row td (now s)) rws = map (values_row td (now s)) rws'"
    using assms by (induction rule: list_all2_induct) (auto simp: agree_values)
  moreover have "insertable_fields td (hd rws) = insertable_fields td (hd rws')"
    using Cons c' h by (simp add: agree_insertable)
  ultimately show ?thesis
    using Cons c' by (simp add: insert_rows_def resolve_def Let_def)
qed

lemma insert_number_row:
  assumes "table_fields td = [(CREATED_ON, a), (NUMBER, b)]"
    and "connection s = Some c"
    and "map_of (current c) (name td) = Some t"
    and "columns t = [CREATED_ON, NUMBER]"
  shows "insert_rows s (ByDefinition td) [[NUMBER \<mapsto> IntV n]] why True =
           (Inr (),
            s\<lparr>connection :=
                 Some (c\<lparr>current :=
                          AList.update (name td)
                            (t\<lparr>rows := rows t @ [[TextV (now s), IntV n]]\<rparr>) (current c),
                        in_transaction := False\<rparr>),
              fs := write_content (fs s) (filename s)
                      (AList.update (name td)
                         (t\<lparr>rows := rows t @ [[TextV (now s), IntV n]]\<rparr>) (current c))\<rparr>)"
proof -
  have ne: "CREATED_ON \<noteq> NUMBER"
    by (simp add: CREATED_ON_def NUMBER_def)
  have flds: "insertable_fields td [NUMBER \<mapsto> IntV n] = [CREATED_ON, NUMBER]"
    using assms(1) ne by (simp add: insertable_fields_def)
  have vals: "values_row td (now s) [NUMBER \<mapsto> IntV n] = [TextV (now s), IntV n]"
    using assms(1) ne by (simp add: values_row_def)
  have row: "inserted_row [CREATED_ON, NUMBER] [CREATED_ON, NUMBER] [TextV (now s), IntV n]
              = [TextV (now s), IntV n]"
    using ne by (simp add: inserted_row_def column_value_def)
  have eng: "engine_insert (current c) (name td) [CREATED_ON, NUMBER] [[TextV (now s), IntV n]]
              = (None, AList.update (name td)
                         (t\<lparr>rows := rows t @ [[TextV (now s), IntV n]]\<rparr>) (current c))"
    using assms(3,4) by (simp add: engine_insert_def row)
  have many: "connection_executemany (name td) [CREATED_ON, NUMBER] [[TextV (now s), IntV n]] s
              = (Inr (), s\<lparr>connection :=
                   Some (c\<lparr>current := AList.update (name td)
                            (t\<lparr>rows := rows t @ [[TextV (now s), IntV n]]\<rparr>) (current c),
                          in_transaction := True\<rparr>)\<rparr>)"
    using assms(2) by (simp add: connection_executemany_def eng)
  show ?thesis
    by (simp add: insert_rows_def resolve_def Let_def flds vals many and_then_def
        connection_commit_def wrap_operational_def)
qed

text \<open>
  Claim C7.  insert with no rows returns at once and leaves the state as it is.
  Otherwise the statement names exactly the fields of the table's schema that are keys of
  the first row, together with the created-timestamp field of the schema; the values bound
  for a row are that row's values for its fields, with the current instant where the
  created-timestamp is missing.  Keys outside the schema play no part: rows that agree on
  the schema's fields give the same call.  For a table with the two fields created_on and
  number, inserting the one row \<open>{number: 1}\<close> adds exactly the row made of the current
  instant and 1, and commits it.
\<close>

theorem insert_first_row_fields:
  "insert_rows s table [] why should_commit = (Inr (), s)
   \<and> (resolve s table = Inr td \<and> rws \<noteq> [] \<longrightarrow>
        insert_rows s table rws why should_commit =
          wrap_operational why (insert_sql td (insertable_fields td (hd rws)))
            (and_then
               (connection_executemany (name td) (insertable_fields td (hd rws))
                  (map (values_row td (now s)) rws) s)
               (\<lambda>_ s1. if should_commit then connection_commit s1 else (Inr (), s1))))
   \<and> set (insertable_fields td r) =
        {f \<in> set (map fst (table_fields td)). r f \<noteq> None}
        \<union> ({CREATED_ON} \<inter> set (map fst (table_fields td)))
   \<and> values_row td clock r =
        map (\<lambda>f. case r f of Some v \<Rightarrow> v | None \<Rightarrow> TextV clock) (insertable_fields td r)
   \<and> (list_all2 (agree_on_schema td) rws rws' \<longrightarrow>
        insert_rows s (ByDefinition td) rws why should_commit
          = insert_rows s (ByDefinition td) rws' why should_commit)
   \<and> (table_fields td = [(CREATED_ON, a), (NUMBER, b)] \<and> connection s = Some c
        \<and> map_of (current c) (name td) = Some t \<and> columns t = [CREATED_ON, NUMBER] \<longrightarrow>
        insert_rows s (ByDefinition td) [[NUMBER \<mapsto> IntV 1]] why True =
           (Inr (),
            s\<lparr>connection :=
                 Some (c\<lparr>current :=
                          AList.update (name td)
                            (t\<lparr>rows := rows t @ [[TextV (now s), IntV 1]]\<rparr>) (current c),
                        in_transaction := False\<rparr>),
              fs := write_content (fs s) (filename s)
                      (AList.update (name td)
                         (t\<lparr>rows := rows t @ [[TextV (now s), IntV 1]]\<rparr>) (current c))\<rparr>))"
proof (intro conjI impI)
  show "insert_rows s table [] why should_commit = (Inr (), s)"
    by (simp add: insert_rows_def)
next
  assume "resolve s table = Inr td \<and> rws \<noteq> []"
  then show "insert_rows s table rws why should_commit =
          wrap_operational why (insert_sql td (insertable_fields td (hd rws)))
            (and_then
               (connection_executemany (name td) (insertable_fields td (hd rws))
                  (map (values_row td (now s)) rws) s)
               (\<lambda>_ s1. if should_commit then connection_commit s1 else (Inr (), s1)))"
    by (simp add: insert_rows_def Let_def)
next
  show "set (insertable_fields td r) =
        {f \<in> set (map fst (table_fields td)). r f \<noteq> None}
        \<union> ({CREATED_ON} \<inter> set (map fst (table_fields td)))"
    by (auto simp: insertable_fields_def)
next
  show "values_row td clock r =
        map (\<lambda>f. case r f of Some v \<Rightarrow> v | None \<Rightarrow> TextV clock) (insertable_fields td r)"
    by (rule values_row_aligned)
next
  assume "list_all2 (agree_on_schema td) rws rws'"
  then show "insert_rows s (ByDefinition td) rws why should_commit
          = insert_rows s (ByDefinition td) rws' why should_commit"
    by (rule agree_rows)
next
  assume "table_fields td = [(CREATED_ON, a), (NUMBER, b)] \<and> connection s = Some c
        \<and> map_of (current c) (name td) = Some t \<and> columns t = [CREATED_ON, NUMBER]"
  then show "insert_rows s (ByDefinition td) [[NUMBER \<mapsto> IntV 1]] why True =
           (Inr (),
            s\<lparr>connection :=
                 Some (c\<lparr>current :=
                          AList.update (name td)
                            (t\<lparr>rows := rows t @ [[TextV (now s), IntV 1]]\<rparr>) (current c),
                        in_transaction := False\<rparr>),
              fs := write_content (fs s) (filename s)
                      (AList.update (name td)
                         (t\<lparr>rows := rows t @ [[TextV (now s), IntV 1]]\<rparr>) (current c))\<rparr>)"
    by (simp add: insert_number_row)
qed

theorem insert_first_row_fields_witness:
  "insert_rows store_emptied (ByName ''revision'') [] None True = (Inr (), store_emptied)
   \<and> set (insertable_fields RevisionTableDefinition [''number'' \<mapsto> IntV 1])
       = {''created_on'', ''number''}
   \<and> values_row RevisionTableDefinition ''T'' [''number'' \<mapsto> IntV 1] = [TextV ''T'', IntV 1]
   \<and> insert_rows store_emptied (ByDefinition RevisionTableDefinition)
         [[''number'' \<mapsto> IntV 1, ''colour'' \<mapsto> TextV ''red'']] None True
       = insert_rows store_emptied (ByDefinition RevisionTableDefinition)
         [[''number'' \<mapsto> IntV 1]] None True
   \<and> map (\<lambda>(n, t). (n, rows t))
         (current (the (connection (snd
            (insert_rows store_emptied (ByDefinition RevisionTableDefinition)
               [[''number'' \<mapsto> IntV 1]] None True)))))
       = [(''revision'', [[TextV ''2024-01-02 09:00:00.000000'', IntV 1]])]"
proof -
  let ?t = "\<lparr>columns = [''created_on'', ''number''], indices = [''revision_created_on''],
             rows = []\<rparr>"
  let ?c = "\<lparr>current = [(''revision'', ?t)], in_transaction = False, open_cursors = 0,
             sql_functions = [(''regexp'', 2)]\<rparr>"
  let ?a = "\<lparr>type_tag = ''TEXT'', indexed = True\<rparr>"
  let ?b = "\<lparr>type_tag = ''INTEGER'', indexed = False\<rparr>"
  have c: "connection store_emptied = Some ?c"
    by code_simp
  have n: "now store_emptied = ''2024-01-02 09:00:00.000000''"
    by code_simp
  have td: "table_fields RevisionTableDefinition = [(CREATED_ON, ?a), (NUMBER, ?b)]"
    "name RevisionTableDefinition = ''revision''"
    by (simp_all add: RevisionTableDefinition_def)
  have names: "CREATED_ON = ''created_on''" "NUMBER = ''number''"
    by (simp_all add: CREATED_ON_def NUMBER_def)
  have agree: "list_all2 (agree_on_schema RevisionTableDefinition)
       [[''number'' \<mapsto> IntV 1, ''colour'' \<mapsto> TextV ''red'']] [[''number'' \<mapsto> IntV 1]]"
    by (simp add: agree_on_schema_def td names)
  have ins: "insertable_fields RevisionTableDefinition [''number'' \<mapsto> IntV 1]
              = [''created_on'', ''number'']"
    by (simp add: insertable_fields_def td names)
  note inst = insert_first_row_fields
    [where s = store_emptied and table = "ByName ''revision''" and why = None
      and should_commit = True and td = RevisionTableDefinition
      and r = "[''number'' \<mapsto> IntV 1]" and clock = "''T''"
      and rws = "[[''number'' \<mapsto> IntV 1, ''colour'' \<mapsto> TextV ''red'']]"
      and rws' = "[[''number'' \<mapsto> IntV 1]]" and a = ?a and b = ?b and c = ?c and t = ?t]
  show ?thesis
    using inst agree
    by (simp add: c n td names ins insert_commute)
qed

subsection \<open>connect on a legacy store\<close>




















subsection \<open>What the first migration step and a bare file name do\<close>

text \<open>
  Claim C2 says that after \<open>apply_revision(1)\<close> on a legacy store the bookkeeping
  table has a row whose number is 1.  The step creates the table, but the row it inserts is
  given under the key \<^verbatim>\<open>revision\<close>, which is not a field of the table (connect uses
  \<^verbatim>\<open>number\<close>): the key is ignored and the row has the current instant and a NULL
  number.  On the legacy store of the worked instance:
\<close>

theorem apply_revision_leaves_number_null:
  "fst (apply_revision legacy_opened 1) = Inr ()
   \<and> map_of (current (the (connection (snd (apply_revision legacy_opened 1))))) ''revision''
       = Some \<lparr>columns = [''created_on'', ''number''], indices = [''revision_created_on''],
               rows = [[TextV ''2024-01-02 09:00:00.000000'', Null]]\<rparr>
   \<and> fst (query (snd (apply_revision legacy_opened 1))
            \<lparr>sel_columns = [''number''], sel_table = ''revision'', sel_where = None\<rparr>
            None None)
       = Inr [[(''number'', Null)]]"
  by code_simp

lemma connect_fresh_store_example:
  "fst (connect store_fresh) = Inr ()
   \<and> map_of (files (fs (snd (connect store_fresh)))) ''/data/store.sqlite''
       = Some \<lparr>content = [(''revision'',
                  \<lparr>columns = [''created_on'', ''number''],
                   indices = [''revision_created_on''],
                   rows = [[TextV ''2024-01-02 09:00:00.000000'', IntV 1]]\<rparr>)],
               mode = 438\<rparr>
   \<and> dirs (fs (snd (connect store_fresh))) = [(''/data'', 511)]"
  by code_simp

text \<open>
  Claim C4 says that connect creates the store for every path whose file does not exist.
  For a file name without a directory part the directory computed by
  \<^verbatim>\<open>os.path.split\<close> is empty, \<^verbatim>\<open>os.path.exists\<close> is false for it, and
  \<^verbatim>\<open>os.makedirs\<close> of the empty path raises: connect ends there, with no file, no
  schema and no connection.  (With a directory part the store is made as the claim says,
  see the example before.)
\<close>

theorem connect_bare_filename_raises:
  "path_split (filename store_bare) = ([], ''store.sqlite'')
   \<and> \<not> isfile (fs store_bare) (filename store_bare)
   \<and> fst (connect store_bare) = Inl (FileNotFoundError [])
   \<and> files (fs (snd (connect store_bare))) = []
   \<and> connection (snd (connect store_bare)) = None"
  by code_simp

end
